theory Spec2Isabelle
  imports Main
begin

section \<open>Data model\<close>

subsection \<open>Declared blocks and the plugin SDK's set\<close>

text \<open>
  A declared block is a Go \<^verbatim>\<open>map[string]interface{}\<close>: a partial map from field names
  to dynamically typed values.  The dynamic types that occur in the three handlers are
  \<^verbatim>\<open>string\<close>, \<^verbatim>\<open>int\<close>, \<^verbatim>\<open>uint\<close> and \<^verbatim>\<open>bool\<close>.
\<close>

datatype val = VString string | VInt int | VUint nat | VBool bool

type_synonym block = "string \<rightharpoonup> val"

text \<open>
  A type assertion \<^verbatim>\<open>x.(string)\<close> on a map lookup panics when the key is absent (the
  lookup yields the nil interface) or holds a value of another dynamic type.  The
  assertions return \<open>None\<close> where Go panics.
\<close>

fun assertString :: "val option \<Rightarrow> string option" where
  "assertString (Some (VString s)) = Some s"
| "assertString _ = None"

fun assertInt :: "val option \<Rightarrow> int option" where
  "assertInt (Some (VInt i)) = Some i"
| "assertInt _ = None"

fun assertBool :: "val option \<Rightarrow> bool option" where
  "assertBool (Some (VBool b)) = Some b"
| "assertBool _ = None"

text \<open>The conversion \<^verbatim>\<open>uint(x)\<close> of a (64-bit) \<^verbatim>\<open>int\<close>: negative values wrap around.\<close>

definition uint_of_int :: "int \<Rightarrow> nat" where
  "uint_of_int i = nat (i mod 2 ^ 64)"

text \<open>
  \<^verbatim>\<open>schema.Set\<close> belongs to the plugin SDK, whose code is not among the sources.  A set
  value is represented by the list of blocks its \<^verbatim>\<open>List()\<close> method enumerates, and
  \<^verbatim>\<open>new(schema.Set)\<close> is the set without elements.  The elements of the sets declared
  by the two handlers are blocks, so the assertion \<^verbatim>\<open>vRaw.(map[string]interface{})\<close> in
  the loops over them does not fail.
\<close>

type_synonym schema_Set = "block list"

definition new_Set :: schema_Set where
  "new_Set = []"

definition List :: "schema_Set \<Rightarrow> block list" where
  "List s = s"

text \<open>
  Modelled from the spec: \<^verbatim>\<open>schema.Set.Difference\<close>, which is not among the sources.
  \<^verbatim>\<open>s.Difference(other)\<close> is ``\<open>old - new\<close> \<open>\<dots>\<close> using full structural equality of blocks
  (not just key equality) as the set-membership test'': it keeps the elements of \<open>s\<close>
  that are equal to no element of \<open>other\<close>, in the order \<open>s\<close> lists them.
\<close>

definition Difference :: "schema_Set \<Rightarrow> schema_Set \<Rightarrow> schema_Set" where
  "Difference s other = filter (\<lambda>v. v \<notin> set other) s"

subsection \<open>The remote API: inputs, entities, errors\<close>

record DeleteACLInput =
  ServiceID :: string
  ServiceVersion :: int
  Name :: string

record CreateACLInput =
  ServiceID :: string
  ServiceVersion :: int
  Name :: string

record ListACLsInput =
  ServiceID :: string
  ServiceVersion :: int

record ACL =
  ID :: string
  Name :: string

record DeleteLogentriesInput =
  ServiceID :: string
  ServiceVersion :: int
  Name :: string

record CreateLogentriesInput =
  ServiceID :: string
  ServiceVersion :: int
  Name :: string
  Port :: nat
  UseTLS :: bool
  Token :: string
  Format :: string
  FormatVersion :: nat
  Placement :: string
  ResponseCondition :: string

record ListLogentriesInput =
  ServiceID :: string
  ServiceVersion :: int

record Logentries =
  Name :: string
  Port :: nat
  UseTLS :: bool
  Token :: string
  Format :: string
  FormatVersion :: nat
  ResponseCondition :: string
  Placement :: string

record UpdatePackageInput =
  ServiceID :: string
  ServiceVersion :: int
  PackagePath :: string

record GetPackageInput =
  ServiceID :: string
  ServiceVersion :: int

text \<open>
  Of the library's \<^verbatim>\<open>Package\<close> the handler reads \<^verbatim>\<open>Metadata.HashSum\<close> only; the
  other fields stand for what else the server reports about a package.
\<close>

record PackageMetadata =
  Name :: string
  Description :: string
  Language :: string
  Size :: int
  HashSum :: string

record Package =
  ID :: string
  ServiceID :: string
  ServiceVersion :: int
  Metadata :: PackageMetadata

text \<open>One constructor per method of the remote client, carrying the input it was given.\<close>

datatype call =
    DeleteACL_call DeleteACLInput
  | CreateACL_call CreateACLInput
  | ListACLs_call ListACLsInput
  | DeleteLogentries_call DeleteLogentriesInput
  | CreateLogentries_call CreateLogentriesInput
  | ListLogentries_call ListLogentriesInput
  | UpdatePackage_call UpdatePackageInput
  | GetPackage_call GetPackageInput

text \<open>
  Go's \<^verbatim>\<open>error\<close> interface.  \<open>HTTPError c\<close> is a \<^verbatim>\<open>*gofastly.HTTPError\<close> whose
  \<^verbatim>\<open>StatusCode\<close> is \<open>c\<close>; \<open>Errorf f args\<close> is the value of \<^verbatim>\<open>fmt.Errorf(f, args...)\<close>,
  kept unformatted; \<open>OtherError\<close> is any other error value.  The nil error is \<open>None\<close> of
  \<open>error option\<close>.  Status codes, version numbers and the other Go \<^verbatim>\<open>int\<close>s are
  carried as they are, with no arithmetic on them but the conversion \<^verbatim>\<open>uint(port)\<close>.
\<close>

datatype error =
    HTTPError (StatusCode: int)
  | Errorf string "fmtarg list"
  | OtherError string
and fmtarg =
    ArgString string
  | ArgInt int
  | ArgInput call
  | ArgError error


subsection \<open>The remote client and what a handler can observe\<close>

text \<open>
  The \<^verbatim>\<open>*gofastly.Client\<close> is an external collaborator.  Each method the handlers use
  is a function of its input and of the remote service's state \<open>'st\<close>; a method that
  returns \<^verbatim>\<open>(result, error)\<close> returns a sum.
\<close>

record 'st Client =
  DeleteACL :: "DeleteACLInput \<Rightarrow> 'st \<Rightarrow> error option \<times> 'st"
  CreateACL :: "CreateACLInput \<Rightarrow> 'st \<Rightarrow> (error + ACL) \<times> 'st"
  ListACLs :: "ListACLsInput \<Rightarrow> 'st \<Rightarrow> (error + ACL list) \<times> 'st"
  DeleteLogentries :: "DeleteLogentriesInput \<Rightarrow> 'st \<Rightarrow> error option \<times> 'st"
  CreateLogentries :: "CreateLogentriesInput \<Rightarrow> 'st \<Rightarrow> (error + Logentries) \<times> 'st"
  ListLogentries :: "ListLogentriesInput \<Rightarrow> 'st \<Rightarrow> (error + Logentries list) \<times> 'st"
  UpdatePackage :: "UpdatePackageInput \<Rightarrow> 'st \<Rightarrow> (error + Package) \<times> 'st"
  GetPackage :: "GetPackageInput \<Rightarrow> 'st \<Rightarrow> (error + Package) \<times> 'st"

text \<open>
  The world a handler acts on: the remote state, the remote calls issued so far (oldest
  first, each with the error it came back with) and the lines written with
  \<^verbatim>\<open>log.Printf\<close> (format string and arguments, unformatted).
\<close>

record 'st world =
  remote :: 'st
  calls :: "(call \<times> error option) list"
  logs :: "(string \<times> fmtarg list) list"

definition log_Printf :: "string \<Rightarrow> fmtarg list \<Rightarrow> 'st world \<Rightarrow> 'st world" where
  "log_Printf f args w = w\<lparr>logs := logs w @ [(f, args)]\<rparr>"

definition errOf :: "error + 'r \<Rightarrow> error option" where
  "errOf r = (case r of Inl e \<Rightarrow> Some e | Inr _ \<Rightarrow> None)"

text \<open>Calling a method that returns only an error, and one that returns a result too.\<close>

definition invoke ::
  "('i \<Rightarrow> call) \<Rightarrow> ('i \<Rightarrow> 'st \<Rightarrow> error option \<times> 'st) \<Rightarrow> 'i \<Rightarrow> 'st world
     \<Rightarrow> error option \<times> 'st world" where
  "invoke ev m i w =
     (case m i (remote w) of
        (err, s) \<Rightarrow> (err, w\<lparr>remote := s, calls := calls w @ [(ev i, err)]\<rparr>))"

definition invokeR ::
  "('i \<Rightarrow> call) \<Rightarrow> ('i \<Rightarrow> 'st \<Rightarrow> (error + 'r) \<times> 'st) \<Rightarrow> 'i \<Rightarrow> 'st world
     \<Rightarrow> (error + 'r) \<times> 'st world" where
  "invokeR ev m i w =
     (case m i (remote w) of
        (r, s) \<Rightarrow> (r, w\<lparr>remote := s, calls := calls w @ [(ev i, errOf r)]\<rparr>))"

text \<open>A handler operation returns an error (possibly nil) or panics.\<close>

datatype outcome = Returns "error option" | Panics

subsection \<open>The plugin SDK's resource data and the handler object\<close>

text \<open>
  The operations of \<^verbatim>\<open>*schema.ResourceData\<close> the handlers use, over an abstract
  resource-data value \<open>'d\<close>.  \<^verbatim>\<open>GetChange\<close> yields two interface values, nil or a
  \<^verbatim>\<open>*schema.Set\<close>; \<^verbatim>\<open>GetOk\<close> yields the list of blocks under a key and whether it is
  set; \<^verbatim>\<open>Set\<close> stores a value and may fail.
\<close>

record 'd ResourceData =
  d_Id :: "'d \<Rightarrow> string"
  d_GetChange :: "'d \<Rightarrow> string \<Rightarrow> schema_Set option \<times> schema_Set option"
  d_GetOk :: "'d \<Rightarrow> string \<Rightarrow> block list \<times> bool"
  d_Get :: "'d \<Rightarrow> string \<Rightarrow> val option"
  d_Set :: "'d \<Rightarrow> string \<Rightarrow> block list \<Rightarrow> error option \<times> 'd"

text \<open>
  \<^verbatim>\<open>DefaultServiceAttributeHandler\<close> and \<^verbatim>\<open>ServiceMetadata\<close> are declared outside the
  sources; the constructors of the three handlers fill in the fields \<open>key\<close> and
  \<open>serviceMetadata\<close>.
\<close>

record ServiceMetadata =
  serviceType :: string

record DefaultServiceAttributeHandler =
  key :: string
  serviceMetadata :: ServiceMetadata

text \<open>
  Modelled from the spec: \<^verbatim>\<open>GetKey\<close>, which is not among the sources.  The handler is
  ``parameterized by a key name (identifies its slot in the overall declared
  configuration)''; \<^verbatim>\<open>GetKey\<close> returns the key the constructor stored.
\<close>

definition GetKey :: "DefaultServiceAttributeHandler \<Rightarrow> string" where
  "GetKey h = key h"

definition NewServiceACL :: "ServiceMetadata \<Rightarrow> DefaultServiceAttributeHandler" where
  "NewServiceACL sa = \<lparr>key = ''acl'', serviceMetadata = sa\<rparr>"

definition NewServiceLogentries :: "ServiceMetadata \<Rightarrow> DefaultServiceAttributeHandler" where
  "NewServiceLogentries sa = \<lparr>key = ''logentries'', serviceMetadata = sa\<rparr>"

definition NewServicePackage :: "ServiceMetadata \<Rightarrow> DefaultServiceAttributeHandler" where
  "NewServicePackage sa = \<lparr>key = ''package'', serviceMetadata = sa\<rparr>"

section \<open>The write path of the ACL and Logentries handlers\<close>

text \<open>
  Both \<^verbatim>\<open>Process\<close> methods start alike: \<^verbatim>\<open>d.GetChange\<close>, a nil value replaced by
  \<^verbatim>\<open>new(schema.Set)\<close>, and the two differences, listed.  \<open>computeDiff\<close> is that common
  opening, from the pair \<^verbatim>\<open>GetChange\<close> returns to the lists \<^verbatim>\<open>remove\<close> and \<^verbatim>\<open>add\<close>.
\<close>

definition computeDiff ::
  "schema_Set option \<times> schema_Set option \<Rightarrow> block list \<times> block list" where
  "computeDiff ch =
     (case ch of (oldVal, newVal) \<Rightarrow>
        let oldSet = (case oldVal of None \<Rightarrow> new_Set | Some s \<Rightarrow> s);
            newSet = (case newVal of None \<Rightarrow> new_Set | Some s \<Rightarrow> s)
        in (List (Difference oldSet newSet), List (Difference newSet oldSet)))"

text \<open>
  A loop that returns from inside yields \<open>Some\<close> of the outcome, and \<open>None\<close> when it runs
  to its end.
\<close>

subsection \<open>ACL\<close>

fun ACL_removeLoop ::
  "'d ResourceData \<Rightarrow> 'd \<Rightarrow> int \<Rightarrow> 'st Client \<Rightarrow> block list \<Rightarrow> 'st world
     \<Rightarrow> outcome option \<times> 'st world" where
  "ACL_removeLoop D d latestVersion conn [] w = (None, w)"
| "ACL_removeLoop D d latestVersion conn (val # remove) w =
     (case assertString (val ''name'') of
        None \<Rightarrow> (Some Panics, w)
      | Some name \<Rightarrow>
          (let opts = \<lparr>DeleteACLInput.ServiceID = d_Id D d,
                       DeleteACLInput.ServiceVersion = latestVersion,
                       DeleteACLInput.Name = name\<rparr>;
               w1 = log_Printf ''[DEBUG] Fastly ACL removal opts: %#v''
                      [ArgInput (DeleteACL_call opts)] w
           in case invoke DeleteACL_call (DeleteACL conn) opts w1 of
                (err, w2) \<Rightarrow>
                  (case err of
                     Some (HTTPError c) \<Rightarrow>
                       if c \<noteq> 404 then (Some (Returns err), w2)
                       else ACL_removeLoop D d latestVersion conn remove w2
                   | _ \<Rightarrow>
                       if err \<noteq> None then (Some (Returns err), w2)
                       else ACL_removeLoop D d latestVersion conn remove w2)))"

fun ACL_addLoop ::
  "'d ResourceData \<Rightarrow> 'd \<Rightarrow> int \<Rightarrow> 'st Client \<Rightarrow> block list \<Rightarrow> 'st world
     \<Rightarrow> outcome option \<times> 'st world" where
  "ACL_addLoop D d latestVersion conn [] w = (None, w)"
| "ACL_addLoop D d latestVersion conn (val # add) w =
     (case assertString (val ''name'') of
        None \<Rightarrow> (Some Panics, w)
      | Some name \<Rightarrow>
          (let opts = \<lparr>CreateACLInput.ServiceID = d_Id D d,
                       CreateACLInput.ServiceVersion = latestVersion,
                       CreateACLInput.Name = name\<rparr>;
               w1 = log_Printf ''[DEBUG] Fastly ACL creation opts: %#v''
                      [ArgInput (CreateACL_call opts)] w
           in case invokeR CreateACL_call (CreateACL conn) opts w1 of
                (r, w2) \<Rightarrow>
                  (case r of
                     Inl err \<Rightarrow> (Some (Returns (Some err)), w2)
                   | Inr _ \<Rightarrow> ACL_addLoop D d latestVersion conn add w2)))"

definition ACL_Process ::
  "DefaultServiceAttributeHandler \<Rightarrow> 'd ResourceData \<Rightarrow> 'd \<Rightarrow> int \<Rightarrow> 'st Client
     \<Rightarrow> 'st world \<Rightarrow> outcome \<times> 'st world" where
  "ACL_Process h D d latestVersion conn w =
     (case computeDiff (d_GetChange D d (GetKey h)) of
        (remove, add) \<Rightarrow>
          (case ACL_removeLoop D d latestVersion conn remove w of
             (Some out, w1) \<Rightarrow> (out, w1)
           | (None, w1) \<Rightarrow>
               (case ACL_addLoop D d latestVersion conn add w1 of
                  (Some out, w2) \<Rightarrow> (out, w2)
                | (None, w2) \<Rightarrow> (Returns None, w2))))"

subsection \<open>Logentries\<close>

text \<open>
  \<^verbatim>\<open>getVCLLoggingAttributes\<close> and \<^verbatim>\<open>uintOrDefault\<close> belong to the repository but are
  not among the sources; \<^verbatim>\<open>Process\<close> takes them as parameters.
\<close>

record VCLLoggingAttributes =
  format :: string
  formatVersion :: "nat option"
  placement :: string
  responseCondition :: string

fun Logentries_removeLoop ::
  "'d ResourceData \<Rightarrow> 'd \<Rightarrow> int \<Rightarrow> 'st Client \<Rightarrow> block list \<Rightarrow> 'st world
     \<Rightarrow> outcome option \<times> 'st world" where
  "Logentries_removeLoop D d latestVersion conn [] w = (None, w)"
| "Logentries_removeLoop D d latestVersion conn (slf # removeLogentries) w =
     (case assertString (slf ''name'') of
        None \<Rightarrow> (Some Panics, w)
      | Some name \<Rightarrow>
          (let opts = \<lparr>DeleteLogentriesInput.ServiceID = d_Id D d,
                       DeleteLogentriesInput.ServiceVersion = latestVersion,
                       DeleteLogentriesInput.Name = name\<rparr>;
               w1 = log_Printf ''[DEBUG] Fastly Logentries removal opts: %#v''
                      [ArgInput (DeleteLogentries_call opts)] w
           in case invoke DeleteLogentries_call (DeleteLogentries conn) opts w1 of
                (err, w2) \<Rightarrow>
                  (case err of
                     Some (HTTPError c) \<Rightarrow>
                       if c \<noteq> 404 then (Some (Returns err), w2)
                       else Logentries_removeLoop D d latestVersion conn removeLogentries w2
                   | _ \<Rightarrow>
                       if err \<noteq> None then (Some (Returns err), w2)
                       else Logentries_removeLoop D d latestVersion conn removeLogentries w2)))"

fun Logentries_addLoop ::
  "(DefaultServiceAttributeHandler \<Rightarrow> block \<Rightarrow> VCLLoggingAttributes) \<Rightarrow> (nat option \<Rightarrow> nat)
     \<Rightarrow> DefaultServiceAttributeHandler \<Rightarrow> 'd ResourceData \<Rightarrow> 'd \<Rightarrow> int \<Rightarrow> 'st Client
     \<Rightarrow> block list \<Rightarrow> 'st world \<Rightarrow> outcome option \<times> 'st world" where
  "Logentries_addLoop getVCLLoggingAttributes uintOrDefault h D d latestVersion conn [] w =
     (None, w)"
| "Logentries_addLoop getVCLLoggingAttributes uintOrDefault h D d latestVersion conn
     (slf # addLogentries) w =
     (let vla = getVCLLoggingAttributes h slf in
      case assertString (slf ''name'') of
        None \<Rightarrow> (Some Panics, w)
      | Some name \<Rightarrow>
      (case assertInt (slf ''port'') of
        None \<Rightarrow> (Some Panics, w)
      | Some port \<Rightarrow>
      (case assertBool (slf ''use_tls'') of
        None \<Rightarrow> (Some Panics, w)
      | Some use_tls \<Rightarrow>
      (case assertString (slf ''token'') of
        None \<Rightarrow> (Some Panics, w)
      | Some token \<Rightarrow>
          (let opts = \<lparr>CreateLogentriesInput.ServiceID = d_Id D d,
                       CreateLogentriesInput.ServiceVersion = latestVersion,
                       CreateLogentriesInput.Name = name,
                       CreateLogentriesInput.Port = uint_of_int port,
                       CreateLogentriesInput.UseTLS = use_tls,
                       CreateLogentriesInput.Token = token,
                       CreateLogentriesInput.Format = format vla,
                       CreateLogentriesInput.FormatVersion =
                         uintOrDefault (formatVersion vla),
                       CreateLogentriesInput.Placement = placement vla,
                       CreateLogentriesInput.ResponseCondition = responseCondition vla\<rparr>;
               w1 = log_Printf ''[DEBUG] Create Logentries Opts: %#v''
                      [ArgInput (CreateLogentries_call opts)] w
           in case invokeR CreateLogentries_call (CreateLogentries conn) opts w1 of
                (r, w2) \<Rightarrow>
                  (case r of
                     Inl err \<Rightarrow> (Some (Returns (Some err)), w2)
                   | Inr _ \<Rightarrow>
                       Logentries_addLoop getVCLLoggingAttributes uintOrDefault h D d
                         latestVersion conn addLogentries w2))))))"

definition Logentries_Process ::
  "(DefaultServiceAttributeHandler \<Rightarrow> block \<Rightarrow> VCLLoggingAttributes) \<Rightarrow> (nat option \<Rightarrow> nat)
     \<Rightarrow> DefaultServiceAttributeHandler \<Rightarrow> 'd ResourceData \<Rightarrow> 'd \<Rightarrow> int \<Rightarrow> 'st Client
     \<Rightarrow> 'st world \<Rightarrow> outcome \<times> 'st world" where
  "Logentries_Process getVCLLoggingAttributes uintOrDefault h D d latestVersion conn w =
     (case computeDiff (d_GetChange D d (GetKey h)) of
        (removeLogentries, addLogentries) \<Rightarrow>
          (case Logentries_removeLoop D d latestVersion conn removeLogentries w of
             (Some out, w1) \<Rightarrow> (out, w1)
           | (None, w1) \<Rightarrow>
               (case Logentries_addLoop getVCLLoggingAttributes uintOrDefault h D d
                       latestVersion conn addLogentries w1 of
                  (Some out, w2) \<Rightarrow> (out, w2)
                | (None, w2) \<Rightarrow> (Returns None, w2))))"

section \<open>The write path of the package handler\<close>

definition updatePackage ::
  "'st Client \<Rightarrow> UpdatePackageInput \<Rightarrow> 'st world \<Rightarrow> error option \<times> 'st world" where
  "updatePackage conn i w =
     (case invokeR UpdatePackage_call (UpdatePackage conn) i w of
        (r, w') \<Rightarrow> (errOf r, w'))"

text \<open>
  \<^verbatim>\<open>v.([]interface{})[0]\<close> panics on an empty list, \<^verbatim>\<open>Package["filename"].(string)\<close>
  on a block without a string under \<^verbatim>\<open>filename\<close>.
\<close>

definition Package_Process ::
  "DefaultServiceAttributeHandler \<Rightarrow> 'd ResourceData \<Rightarrow> 'd \<Rightarrow> int \<Rightarrow> 'st Client
     \<Rightarrow> 'st world \<Rightarrow> outcome \<times> 'st world" where
  "Package_Process h D d latestVersion conn w =
     (case d_GetOk D d (GetKey h) of
        (v, ok) \<Rightarrow>
          if ok then
            (case v of
               [] \<Rightarrow> (Panics, w)
             | Package # _ \<Rightarrow>
                 (case assertString (Package ''filename'') of
                    None \<Rightarrow> (Panics, w)
                  | Some packageFilename \<Rightarrow>
                      (case updatePackage conn
                              \<lparr>UpdatePackageInput.ServiceID = d_Id D d,
                               UpdatePackageInput.ServiceVersion = latestVersion,
                               UpdatePackageInput.PackagePath = packageFilename\<rparr> w of
                         (err, w') \<Rightarrow>
                           (case err of
                              Some e \<Rightarrow>
                                (Returns (Some (Errorf ''Error modifying package %s: %s''
                                                  [ArgString (d_Id D d), ArgError e])), w')
                            | None \<Rightarrow> (Returns None, w')))))
          else (Returns None, w))"

section \<open>Normalising remote entities\<close>

text \<open>
  The pruning loop \<^verbatim>\<open>for k, v := range m { if v == "" { delete(m, k) } }\<close> visits every
  key of the map once, in an order Go leaves open; \<open>ks\<close> is the list of keys in the order
  visited.  The comparison \<^verbatim>\<open>v == ""\<close> of an interface value with a string constant
  holds only for a value of dynamic type string that is empty.
\<close>

definition pruneEmpty :: "string list \<Rightarrow> block \<Rightarrow> block" where
  "pruneEmpty ks m = fold (\<lambda>k m. if m k = Some (VString []) then m(k := None) else m) ks m"

text \<open>The map literals of the two loops, \<^verbatim>\<open>vclMap\<close> and \<^verbatim>\<open>LEMapString\<close>.\<close>

definition vclMap :: "ACL \<Rightarrow> block" where
  "vclMap acl =
     [''acl_id'' \<mapsto> VString (ACL.ID acl),
      ''name'' \<mapsto> VString (ACL.Name acl)]"

definition LEMapString :: "Logentries \<Rightarrow> block" where
  "LEMapString currentLE =
     [''name'' \<mapsto> VString (Logentries.Name currentLE),
      ''port'' \<mapsto> VUint (Logentries.Port currentLE),
      ''use_tls'' \<mapsto> VBool (Logentries.UseTLS currentLE),
      ''token'' \<mapsto> VString (Logentries.Token currentLE),
      ''format'' \<mapsto> VString (Logentries.Format currentLE),
      ''format_version'' \<mapsto> VUint (Logentries.FormatVersion currentLE),
      ''response_condition'' \<mapsto> VString (Logentries.ResponseCondition currentLE),
      ''placement'' \<mapsto> VString (Logentries.Placement currentLE)]"

fun flattenACLs :: "ACL list \<Rightarrow> block list" where
  "flattenACLs [] = []"
| "flattenACLs (acl # aclList) =
     pruneEmpty [''acl_id'', ''name''] (vclMap acl) # flattenACLs aclList"

fun flattenLogentries :: "Logentries list \<Rightarrow> block list" where
  "flattenLogentries [] = []"
| "flattenLogentries (currentLE # logentriesList) =
     pruneEmpty [''name'', ''port'', ''use_tls'', ''token'', ''format'', ''format_version'',
                 ''response_condition'', ''placement''] (LEMapString currentLE)
     # flattenLogentries logentriesList"

definition flattenPackage :: "Package \<Rightarrow> string \<Rightarrow> block list" where
  "flattenPackage Package filename =
     [[''source_code_hash'' \<mapsto> VString (HashSum (Metadata Package)),
       ''filename'' \<mapsto> VString filename]]"

section \<open>The read path\<close>

record Version =
  Number :: int

record ServiceDetail =
  ActiveVersion :: Version

text \<open>\<^verbatim>\<open>Read\<close> changes the resource data through \<^verbatim>\<open>d.Set\<close>, so it returns it.\<close>

definition ACL_Read ::
  "DefaultServiceAttributeHandler \<Rightarrow> 'd ResourceData \<Rightarrow> 'd \<Rightarrow> ServiceDetail \<Rightarrow> 'st Client
     \<Rightarrow> 'st world \<Rightarrow> outcome \<times> 'd \<times> 'st world" where
  "ACL_Read h D d s conn w =
     (case invokeR ListACLs_call (ListACLs conn)
             \<lparr>ListACLsInput.ServiceID = d_Id D d,
              ListACLsInput.ServiceVersion = Number (ActiveVersion s)\<rparr>
             (log_Printf ''[DEBUG] Refreshing ACLs for (%s)'' [ArgString (d_Id D d)] w) of
        (Inl err, w1) \<Rightarrow>
          (Returns (Some (Errorf ''[ERR] Error looking up ACLs for (%s), version (%v): %s''
             [ArgString (d_Id D d), ArgInt (Number (ActiveVersion s)), ArgError err])), d, w1)
      | (Inr aclList, w1) \<Rightarrow>
          (let al = flattenACLs aclList in
           case d_Set D d (GetKey h) al of
             (Some err, d') \<Rightarrow>
               (Returns None, d',
                log_Printf ''[WARN] Error setting ACLs for (%s): %s''
                  [ArgString (d_Id D d'), ArgError err] w1)
           | (None, d') \<Rightarrow> (Returns None, d', w1)))"

definition Logentries_Read ::
  "DefaultServiceAttributeHandler \<Rightarrow> 'd ResourceData \<Rightarrow> 'd \<Rightarrow> ServiceDetail \<Rightarrow> 'st Client
     \<Rightarrow> 'st world \<Rightarrow> outcome \<times> 'd \<times> 'st world" where
  "Logentries_Read h D d s conn w =
     (case invokeR ListLogentries_call (ListLogentries conn)
             \<lparr>ListLogentriesInput.ServiceID = d_Id D d,
              ListLogentriesInput.ServiceVersion = Number (ActiveVersion s)\<rparr>
             (log_Printf ''[DEBUG] Refreshing Logentries for (%s)'' [ArgString (d_Id D d)] w) of
        (Inl err, w1) \<Rightarrow>
          (Returns (Some (Errorf
             ''[ERR] Error looking up Logentries for (%s), version (%d): %s''
             [ArgString (d_Id D d), ArgInt (Number (ActiveVersion s)), ArgError err])), d, w1)
      | (Inr logentriesList, w1) \<Rightarrow>
          (let lel = flattenLogentries logentriesList in
           case d_Set D d (GetKey h) lel of
             (Some err, d') \<Rightarrow>
               (Returns None, d',
                log_Printf ''[WARN] Error setting Logentries for (%s): %s''
                  [ArgString (d_Id D d'), ArgError err] w1)
           | (None, d') \<Rightarrow> (Returns None, d', w1)))"

text \<open>\<^verbatim>\<open>d.Get("package.0.filename").(string)\<close> panics unless the value is a string.\<close>

definition Package_Read ::
  "DefaultServiceAttributeHandler \<Rightarrow> 'd ResourceData \<Rightarrow> 'd \<Rightarrow> ServiceDetail \<Rightarrow> 'st Client
     \<Rightarrow> 'st world \<Rightarrow> outcome \<times> 'd \<times> 'st world" where
  "Package_Read h D d s conn w =
     (case invokeR GetPackage_call (GetPackage conn)
             \<lparr>GetPackageInput.ServiceID = d_Id D d,
              GetPackageInput.ServiceVersion = Number (ActiveVersion s)\<rparr>
             (log_Printf ''[DEBUG] Refreshing package for (%s)'' [ArgString (d_Id D d)] w) of
        (Inl err, w1) \<Rightarrow>
          (Returns (Some (Errorf ''[ERR] Error looking up Package for (%s), version (%v): %v''
             [ArgString (d_Id D d), ArgInt (Number (ActiveVersion s)), ArgError err])), d, w1)
      | (Inr Package, w1) \<Rightarrow>
          (case assertString (d_Get D d ''package.0.filename'') of
             None \<Rightarrow> (Panics, d, w1)
           | Some filename \<Rightarrow>
               (let wp = flattenPackage Package filename in
                case d_Set D d (GetKey h) wp of
                  (Some err, d') \<Rightarrow>
                    (Returns None, d',
                     log_Printf ''[WARN] Error setting Package for (%s): %s''
                       [ArgString (d_Id D d'), ArgError err] w1)
                | (None, d') \<Rightarrow> (Returns None, d', w1))))"

section \<open>The common shape of the two write paths\<close>

text \<open>
  The four loops differ in the options a block is translated to, in the format string
  of the debug line and in the client method.  For the proofs they are written once,
  over these: \<open>mk\<close> translates a block (\<open>None\<close> where a type assertion panics), \<open>f\<close> is the
  format string, \<open>ev\<close> names the call for the log and \<open>m\<close> is the method.  The lemmas
  \<open>ACL_Process_eq\<close> and \<open>Logentries_Process_eq\<close> below show that the write paths are
  instances.
\<close>

fun removeLoop ::
  "(block \<Rightarrow> 'i option) \<Rightarrow> string \<Rightarrow> ('i \<Rightarrow> call) \<Rightarrow> ('i \<Rightarrow> 'st \<Rightarrow> error option \<times> 'st)
     \<Rightarrow> block list \<Rightarrow> 'st world \<Rightarrow> outcome option \<times> 'st world" where
  "removeLoop mk f ev m [] w = (None, w)"
| "removeLoop mk f ev m (vRaw # rest) w =
     (case mk vRaw of
        None \<Rightarrow> (Some Panics, w)
      | Some opts \<Rightarrow>
          (case invoke ev m opts (log_Printf f [ArgInput (ev opts)] w) of
             (err, w') \<Rightarrow>
               (case err of
                  Some (HTTPError c) \<Rightarrow>
                    if c \<noteq> 404 then (Some (Returns err), w')
                    else removeLoop mk f ev m rest w'
                | _ \<Rightarrow>
                    if err \<noteq> None then (Some (Returns err), w')
                    else removeLoop mk f ev m rest w')))"

fun addLoop ::
  "(block \<Rightarrow> 'i option) \<Rightarrow> string \<Rightarrow> ('i \<Rightarrow> call) \<Rightarrow> ('i \<Rightarrow> 'st \<Rightarrow> (error + 'r) \<times> 'st)
     \<Rightarrow> block list \<Rightarrow> 'st world \<Rightarrow> outcome option \<times> 'st world" where
  "addLoop mk f ev m [] w = (None, w)"
| "addLoop mk f ev m (vRaw # rest) w =
     (case mk vRaw of
        None \<Rightarrow> (Some Panics, w)
      | Some opts \<Rightarrow>
          (case invokeR ev m opts (log_Printf f [ArgInput (ev opts)] w) of
             (r, w') \<Rightarrow>
               (case r of
                  Inl err \<Rightarrow> (Some (Returns (Some err)), w')
                | Inr _ \<Rightarrow> addLoop mk f ev m rest w')))"

definition removeThenAdd ::
  "(block \<Rightarrow> 'i option) \<Rightarrow> string \<Rightarrow> ('i \<Rightarrow> call) \<Rightarrow> ('i \<Rightarrow> 'st \<Rightarrow> error option \<times> 'st)
     \<Rightarrow> (block \<Rightarrow> 'j option) \<Rightarrow> string \<Rightarrow> ('j \<Rightarrow> call) \<Rightarrow> ('j \<Rightarrow> 'st \<Rightarrow> (error + 'r) \<times> 'st)
     \<Rightarrow> block list \<times> block list \<Rightarrow> 'st world \<Rightarrow> outcome \<times> 'st world" where
  "removeThenAdd mkD fD evD mD mkC fC evC mC ra w =
     (case ra of (remove, add) \<Rightarrow>
        (case removeLoop mkD fD evD mD remove w of
           (Some out, w1) \<Rightarrow> (out, w1)
         | (None, w1) \<Rightarrow>
             (case addLoop mkC fC evC mC add w1 of
                (Some out, w2) \<Rightarrow> (out, w2)
              | (None, w2) \<Rightarrow> (Returns None, w2))))"

definition ACL_deleteOpts :: "string \<Rightarrow> int \<Rightarrow> block \<Rightarrow> DeleteACLInput option" where
  "ACL_deleteOpts sid latestVersion v =
     (case assertString (v ''name'') of
        None \<Rightarrow> None
      | Some n \<Rightarrow>
          Some \<lparr>DeleteACLInput.ServiceID = sid,
                DeleteACLInput.ServiceVersion = latestVersion,
                DeleteACLInput.Name = n\<rparr>)"

definition ACL_createOpts :: "string \<Rightarrow> int \<Rightarrow> block \<Rightarrow> CreateACLInput option" where
  "ACL_createOpts sid latestVersion v =
     (case assertString (v ''name'') of
        None \<Rightarrow> None
      | Some n \<Rightarrow>
          Some \<lparr>CreateACLInput.ServiceID = sid,
                CreateACLInput.ServiceVersion = latestVersion,
                CreateACLInput.Name = n\<rparr>)"

definition Logentries_deleteOpts ::
  "string \<Rightarrow> int \<Rightarrow> block \<Rightarrow> DeleteLogentriesInput option" where
  "Logentries_deleteOpts sid latestVersion slf =
     (case assertString (slf ''name'') of
        None \<Rightarrow> None
      | Some n \<Rightarrow>
          Some \<lparr>DeleteLogentriesInput.ServiceID = sid,
                DeleteLogentriesInput.ServiceVersion = latestVersion,
                DeleteLogentriesInput.Name = n\<rparr>)"

definition Logentries_createOpts ::
  "(DefaultServiceAttributeHandler \<Rightarrow> block \<Rightarrow> VCLLoggingAttributes) \<Rightarrow> (nat option \<Rightarrow> nat)
     \<Rightarrow> DefaultServiceAttributeHandler \<Rightarrow> string \<Rightarrow> int \<Rightarrow> block
     \<Rightarrow> CreateLogentriesInput option" where
  "Logentries_createOpts getVCLLoggingAttributes uintOrDefault h sid latestVersion slf =
     (let vla = getVCLLoggingAttributes h slf in
      case assertString (slf ''name'') of
        None \<Rightarrow> None
      | Some n \<Rightarrow>
      (case assertInt (slf ''port'') of
        None \<Rightarrow> None
      | Some p \<Rightarrow>
      (case assertBool (slf ''use_tls'') of
        None \<Rightarrow> None
      | Some tls \<Rightarrow>
      (case assertString (slf ''token'') of
        None \<Rightarrow> None
      | Some tok \<Rightarrow>
          Some \<lparr>CreateLogentriesInput.ServiceID = sid,
                CreateLogentriesInput.ServiceVersion = latestVersion,
                CreateLogentriesInput.Name = n,
                CreateLogentriesInput.Port = uint_of_int p,
                CreateLogentriesInput.UseTLS = tls,
                CreateLogentriesInput.Token = tok,
                CreateLogentriesInput.Format = format vla,
                CreateLogentriesInput.FormatVersion = uintOrDefault (formatVersion vla),
                CreateLogentriesInput.Placement = placement vla,
                CreateLogentriesInput.ResponseCondition = responseCondition vla\<rparr>))))"

section \<open>What a run of the write path leaves in the call log\<close>

text \<open>
  A delete's answer is absorbed when it is nil or a \<^verbatim>\<open>*gofastly.HTTPError\<close> with status
  404; \<open>plan mk ev vs\<close> is the list of calls a loop over \<open>vs\<close> would issue, \<open>None\<close> at a
  block whose translation panics.
\<close>

definition absorbed :: "error option \<Rightarrow> bool" where
  "absorbed eo = (eo = None \<or> eo = Some (HTTPError 404))"

definition plan :: "(block \<Rightarrow> 'i option) \<Rightarrow> ('i \<Rightarrow> call) \<Rightarrow> block list \<Rightarrow> call option list" where
  "plan mk ev vs = map (\<lambda>v. map_option ev (mk v)) vs"

fun isDeleteCall :: "call \<Rightarrow> bool" where
  "isDeleteCall (DeleteACL_call _) = True"
| "isDeleteCall (DeleteLogentries_call _) = True"
| "isDeleteCall _ = False"

fun isCreateCall :: "call \<Rightarrow> bool" where
  "isCreateCall (CreateACL_call _) = True"
| "isCreateCall (CreateLogentries_call _) = True"
| "isCreateCall _ = False"

text \<open>The calls a run from world \<open>w\<close> to world \<open>w'\<close> has added to the log.\<close>

definition issued :: "'st world \<Rightarrow> 'st world \<Rightarrow> (call \<times> error option) list" where
  "issued w w' = drop (length (calls w)) (calls w')"

text \<open>
  \<open>deletes_before_creates pd pc tr\<close>: the log \<open>tr\<close> is a run of delete calls followed by
  create calls only; the deletes are the planned deletes \<open>pd\<close>, in order, as far as the run
  got, and the creates the planned creates \<open>pc\<close>; and if any create was issued, every
  planned delete was issued before it and its answer was absorbed.
\<close>

definition deletes_before_creates ::
  "call option list \<Rightarrow> call option list \<Rightarrow> (call \<times> error option) list \<Rightarrow> bool" where
  "deletes_before_creates pd pc tr =
     (let ds = takeWhile (isDeleteCall \<circ> fst) tr;
          cs = dropWhile (isDeleteCall \<circ> fst) tr
      in list_all (isCreateCall \<circ> fst) cs
         \<and> map (Some \<circ> fst) ds = take (length ds) pd
         \<and> map (Some \<circ> fst) cs = take (length cs) pc
         \<and> (cs = [] \<or> length ds = length pd \<and> list_all (absorbed \<circ> snd) ds))"

text \<open>
  An answer is fatal when it makes \<^verbatim>\<open>Process\<close> return: any error of a create, and any
  error of a delete but a 404.
\<close>

definition fatal :: "call \<times> error option \<Rightarrow> bool" where
  "fatal x = (snd x \<noteq> None \<and> \<not> (isDeleteCall (fst x) \<and> snd x = Some (HTTPError 404)))"

text \<open>
  \<open>absorb404 m\<close> is the delete method \<open>m\<close> with every not-found answer replaced by
  success; \<open>same_run w v\<close> holds of two worlds with the same remote state, the same calls
  in the same order (whatever their answers) and the same log lines.
\<close>

definition absorb404 ::
  "('i \<Rightarrow> 'st \<Rightarrow> error option \<times> 'st) \<Rightarrow> 'i \<Rightarrow> 'st \<Rightarrow> error option \<times> 'st" where
  "absorb404 m i s =
     (case m i s of (err, s') \<Rightarrow> (if err = Some (HTTPError 404) then None else err, s'))"

definition same_run :: "'st world \<Rightarrow> 'st world \<Rightarrow> bool" where
  "same_run w v =
     (remote w = remote v \<and> map fst (calls w) = map fst (calls v) \<and> logs w = logs v)"

text \<open>
  \<open>stops_at_fatal r tr\<close>: no call of the run \<open>tr\<close> but the last was answered fatally,
  and if the last one was, the run returned the very error of that answer.
  \<open>error_from_last_call r tr\<close>: an error the run returned is the fatal answer to the
  last call it issued.
\<close>

definition stops_at_fatal :: "outcome \<Rightarrow> (call \<times> error option) list \<Rightarrow> bool" where
  "stops_at_fatal r tr =
     (list_all (\<lambda>x. \<not> fatal x) (butlast tr)
      \<and> (if tr \<noteq> [] \<and> fatal (last tr) then r = Returns (snd (last tr)) else True))"

definition error_from_last_call :: "outcome \<Rightarrow> (call \<times> error option) list \<Rightarrow> bool" where
  "error_from_last_call r tr =
     (case r of
        Returns (Some e) \<Rightarrow> tr \<noteq> [] \<and> snd (last tr) = Some e \<and> fatal (last tr)
      | _ \<Rightarrow> True)"

text \<open>
  \<open>run_to_end pl r tr\<close>, for the planned calls \<open>pl\<close> (the deletes of the removal list,
  then the creates of the addition list): the run \<open>tr\<close> issued the planned calls in
  order, as far as it got, and it stopped short of the end of the plan for one of two
  reasons only.  Either it returned nil, and then every planned call was issued and none
  was answered fatally; or it returned an error, the fatal answer to the last call it
  issued; or it panicked, at the next planned block, whose translation panics.

  \<open>continues_after_404 pl r tr\<close>: after every delete of the run that was answered 404
  the next planned call was issued; or none was issued because translating the next
  planned block panics; or the delete was the last planned call and the run returned nil.
\<close>

definition run_to_end ::
  "call option list \<Rightarrow> outcome \<Rightarrow> (call \<times> error option) list \<Rightarrow> bool" where
  "run_to_end pl r tr =
     (map (Some \<circ> fst) tr = take (length tr) pl
      \<and> (case r of
            Returns None \<Rightarrow> map (Some \<circ> fst) tr = pl \<and> list_all (\<lambda>x. \<not> fatal x) tr
          | Returns (Some e) \<Rightarrow> tr \<noteq> [] \<and> snd (last tr) = Some e \<and> fatal (last tr)
          | Panics \<Rightarrow>
              length tr < length pl \<and> pl ! length tr = None
              \<and> list_all (\<lambda>x. \<not> fatal x) tr))"

definition continues_after_404 ::
  "call option list \<Rightarrow> outcome \<Rightarrow> (call \<times> error option) list \<Rightarrow> bool" where
  "continues_after_404 pl r tr =
     (\<forall>i < length tr.
        isDeleteCall (fst (tr ! i)) \<and> snd (tr ! i) = Some (HTTPError 404) \<longrightarrow>
          (if Suc i < length tr then Some (fst (tr ! Suc i)) = pl ! Suc i
           else if Suc i < length pl then pl ! Suc i = None \<and> r = Panics
           else r = Returns None))"

text \<open>A nil collection read as the empty set.\<close>

definition orEmpty :: "schema_Set option \<Rightarrow> schema_Set option" where
  "orEmpty x = Some (case x of None \<Rightarrow> new_Set | Some s \<Rightarrow> s)"

section \<open>A small remote service and resource data, for examples\<close>

text \<open>
  The remote state is the list of names that exist.  Deleting a name that does not exist
  answers 404, deleting the name \<open>locked\<close> answers 500; creating a name that exists
  answers 409.
\<close>

definition demoPackage :: Package where
  "demoPackage =
     \<lparr>Package.ID = ''p1'', Package.ServiceID = ''svc'', Package.ServiceVersion = 3,
      Package.Metadata =
        \<lparr>PackageMetadata.Name = ''app'', PackageMetadata.Description = ''demo'',
         PackageMetadata.Language = ''rust'', PackageMetadata.Size = 1024,
         PackageMetadata.HashSum = ''abc123''\<rparr>\<rparr>"

definition demoLogentries :: "string \<Rightarrow> Logentries" where
  "demoLogentries n =
     \<lparr>Logentries.Name = n, Logentries.Port = 0, Logentries.UseTLS = False,
      Logentries.Token = [], Logentries.Format = [], Logentries.FormatVersion = 0,
      Logentries.ResponseCondition = [], Logentries.Placement = []\<rparr>"

definition demoDelete :: "string \<Rightarrow> string list \<Rightarrow> error option \<times> string list" where
  "demoDelete n s =
     (if n = ''locked'' then (Some (HTTPError 500), s)
      else if n \<in> set s then (None, removeAll n s)
      else (Some (HTTPError 404), s))"

definition demoCreate :: "string \<Rightarrow> 'r \<Rightarrow> string list \<Rightarrow> (error + 'r) \<times> string list" where
  "demoCreate n r s = (if n \<in> set s then (Inl (HTTPError 409), s) else (Inr r, s @ [n]))"

definition demoClient :: "string list Client" where
  "demoClient =
     \<lparr>DeleteACL = (\<lambda>i. demoDelete (DeleteACLInput.Name i)),
      CreateACL = (\<lambda>i. demoCreate (CreateACLInput.Name i)
                          \<lparr>ACL.ID = ''id'', ACL.Name = CreateACLInput.Name i\<rparr>),
      ListACLs = (\<lambda>i s. (Inr (map (\<lambda>n. \<lparr>ACL.ID = [], ACL.Name = n\<rparr>) s), s)),
      DeleteLogentries = (\<lambda>i. demoDelete (DeleteLogentriesInput.Name i)),
      CreateLogentries = (\<lambda>i. demoCreate (CreateLogentriesInput.Name i)
                                 (demoLogentries (CreateLogentriesInput.Name i))),
      ListLogentries = (\<lambda>i s. (Inr (map demoLogentries s), s)),
      UpdatePackage = (\<lambda>i s. (Inr demoPackage, s)),
      GetPackage = (\<lambda>i s. (Inr demoPackage, s))\<rparr>"

record demoData =
  dd_Id :: string
  dd_old :: "schema_Set option"
  dd_new :: "schema_Set option"
  dd_package :: "block list"
  dd_setError :: "error option"
  dd_stored :: "(string \<times> block list) list"

definition demoD :: "demoData ResourceData" where
  "demoD =
     \<lparr>d_Id = dd_Id,
      d_GetChange = (\<lambda>d k. (dd_old d, dd_new d)),
      d_GetOk = (\<lambda>d k. (dd_package d, dd_package d \<noteq> [])),
      d_Get = (\<lambda>d k. if k = ''package.0.filename''
                       then (case dd_package d of
                               [] \<Rightarrow> Some (VString [])
                             | b # _ \<Rightarrow> b ''filename'')
                       else None),
      d_Set = (\<lambda>d k v. case dd_setError d of
                          Some e \<Rightarrow> (Some e, d)
                        | None \<Rightarrow> (None, d\<lparr>dd_stored := (k, v) # dd_stored d\<rparr>))\<rparr>"

definition demoData0 :: demoData where
  "demoData0 =
     \<lparr>dd_Id = ''svc'', dd_old = None, dd_new = None, dd_package = [],
      dd_setError = None, dd_stored = []\<rparr>"

definition world0 :: "string list \<Rightarrow> string list world" where
  "world0 s = \<lparr>remote = s, calls = [], logs = []\<rparr>"

definition aclBlock :: "string \<Rightarrow> block" where
  "aclBlock n = [''name'' \<mapsto> VString n]"

definition leBlock :: "string \<Rightarrow> int \<Rightarrow> block" where
  "leBlock n p =
     [''name'' \<mapsto> VString n, ''port'' \<mapsto> VInt p, ''use_tls'' \<mapsto> VBool True,
      ''token'' \<mapsto> VString ''tok'']"

text \<open>The inputs the two handlers build for service \<open>svc\<close>, version 7, from these blocks.\<close>

definition aclDelete :: "string \<Rightarrow> call" where
  "aclDelete n =
     DeleteACL_call \<lparr>DeleteACLInput.ServiceID = ''svc'', DeleteACLInput.ServiceVersion = 7,
                     DeleteACLInput.Name = n\<rparr>"

definition aclCreate :: "string \<Rightarrow> call" where
  "aclCreate n =
     CreateACL_call \<lparr>CreateACLInput.ServiceID = ''svc'', CreateACLInput.ServiceVersion = 7,
                     CreateACLInput.Name = n\<rparr>"

definition leDelete :: "string \<Rightarrow> call" where
  "leDelete n =
     DeleteLogentries_call
       \<lparr>DeleteLogentriesInput.ServiceID = ''svc'', DeleteLogentriesInput.ServiceVersion = 7,
        DeleteLogentriesInput.Name = n\<rparr>"

definition leCreate :: "string \<Rightarrow> nat \<Rightarrow> call" where
  "leCreate n p =
     CreateLogentries_call
       \<lparr>CreateLogentriesInput.ServiceID = ''svc'',
        CreateLogentriesInput.ServiceVersion = 7,
        CreateLogentriesInput.Name = n,
        CreateLogentriesInput.Port = p,
        CreateLogentriesInput.UseTLS = True,
        CreateLogentriesInput.Token = ''tok'',
        CreateLogentriesInput.Format = ''%h'',
        CreateLogentriesInput.FormatVersion = 2,
        CreateLogentriesInput.Placement = [],
        CreateLogentriesInput.ResponseCondition = []\<rparr>"

definition pkgBlock :: "string \<Rightarrow> block" where
  "pkgBlock fn = [''filename'' \<mapsto> VString fn]"

definition pkgUpdate :: "string \<Rightarrow> call" where
  "pkgUpdate fn =
     UpdatePackage_call
       \<lparr>UpdatePackageInput.ServiceID = ''svc'', UpdatePackageInput.ServiceVersion = 7,
        UpdatePackageInput.PackagePath = fn\<rparr>"

definition demoVLA :: "DefaultServiceAttributeHandler \<Rightarrow> block \<Rightarrow> VCLLoggingAttributes" where
  "demoVLA h slf =
     \<lparr>format = ''%h'', formatVersion = Some 2, placement = [], responseCondition = []\<rparr>"

definition demoUintOrDefault :: "nat option \<Rightarrow> nat" where
  "demoUintOrDefault x = (case x of None \<Rightarrow> 0 | Some n \<Rightarrow> n)"

definition demoSM :: ServiceMetadata where
  "demoSM = \<lparr>serviceType = ''vcl''\<rparr>"

definition demoS :: ServiceDetail where
  "demoS = \<lparr>ActiveVersion = \<lparr>Number = 2\<rparr>\<rparr>"

section \<open>The write paths as instances of the common shape\<close>

lemma ACL_removeLoop_eq:
  "ACL_removeLoop D d v conn vs w =
     removeLoop (ACL_deleteOpts (d_Id D d) v) ''[DEBUG] Fastly ACL removal opts: %#v''
       DeleteACL_call (DeleteACL conn) vs w"
  by (induction vs arbitrary: w)
     (auto simp: ACL_deleteOpts_def Let_def split: option.splits prod.splits error.splits)

lemma ACL_addLoop_eq:
  "ACL_addLoop D d v conn vs w =
     addLoop (ACL_createOpts (d_Id D d) v) ''[DEBUG] Fastly ACL creation opts: %#v''
       CreateACL_call (CreateACL conn) vs w"
  by (induction vs arbitrary: w)
     (auto simp: ACL_createOpts_def Let_def split: option.splits prod.splits sum.splits)

lemma ACL_Process_eq:
  "ACL_Process h D d latestVersion conn w =
     removeThenAdd
       (ACL_deleteOpts (d_Id D d) latestVersion)
       ''[DEBUG] Fastly ACL removal opts: %#v'' DeleteACL_call (DeleteACL conn)
       (ACL_createOpts (d_Id D d) latestVersion)
       ''[DEBUG] Fastly ACL creation opts: %#v'' CreateACL_call (CreateACL conn)
       (computeDiff (d_GetChange D d (GetKey h))) w"
  by (simp add: ACL_Process_def removeThenAdd_def ACL_removeLoop_eq ACL_addLoop_eq
      split: prod.splits option.splits)

lemma Logentries_removeLoop_eq:
  "Logentries_removeLoop D d v conn vs w =
     removeLoop (Logentries_deleteOpts (d_Id D d) v)
       ''[DEBUG] Fastly Logentries removal opts: %#v''
       DeleteLogentries_call (DeleteLogentries conn) vs w"
  by (induction vs arbitrary: w)
     (auto simp: Logentries_deleteOpts_def Let_def
           split: option.splits prod.splits error.splits)

lemma Logentries_addLoop_eq:
  "Logentries_addLoop g u h D d v conn vs w =
     addLoop (Logentries_createOpts g u h (d_Id D d) v)
       ''[DEBUG] Create Logentries Opts: %#v''
       CreateLogentries_call (CreateLogentries conn) vs w"
  by (induction vs arbitrary: w)
     (auto simp: Logentries_createOpts_def Let_def split: option.splits prod.splits sum.splits)

lemma Logentries_Process_eq:
  "Logentries_Process g u h D d latestVersion conn w =
     removeThenAdd
       (Logentries_deleteOpts (d_Id D d) latestVersion)
       ''[DEBUG] Fastly Logentries removal opts: %#v''
       DeleteLogentries_call (DeleteLogentries conn)
       (Logentries_createOpts g u h (d_Id D d) latestVersion)
       ''[DEBUG] Create Logentries Opts: %#v''
       CreateLogentries_call (CreateLogentries conn)
       (computeDiff (d_GetChange D d (GetKey h))) w"
  by (simp add: Logentries_Process_def removeThenAdd_def Logentries_removeLoop_eq
      Logentries_addLoop_eq split: prod.splits option.splits)

section \<open>Lemmas about the write path\<close>

lemma calls_invoke: "invoke ev m i w = (err, w') \<Longrightarrow> calls w' = calls w @ [(ev i, err)]"
  by (auto simp: invoke_def split: prod.splits)

lemma calls_invokeR: "invokeR ev m i w = (r, w') \<Longrightarrow> calls w' = calls w @ [(ev i, errOf r)]"
  by (auto simp: invokeR_def split: prod.splits)

lemma calls_log_Printf [simp]: "calls (log_Printf f args w) = calls w"
  by (simp add: log_Printf_def)

lemma removeLoop_trace:
  "removeLoop mk f ev m vs w = (r, w') \<Longrightarrow>
   \<exists>tr. calls w' = calls w @ tr \<and> map (Some \<circ> fst) tr = take (length tr) (plan mk ev vs)
     \<and> list_all (absorbed \<circ> snd) (butlast tr)
     \<and> (case r of
           None \<Rightarrow> length tr = length vs \<and> list_all (absorbed \<circ> snd) tr
         | Some (Returns eo) \<Rightarrow> tr \<noteq> [] \<and> snd (last tr) = eo \<and> \<not> absorbed eo
         | Some Panics \<Rightarrow> length tr < length vs \<and> mk (vs ! length tr) = None
              \<and> list_all (absorbed \<circ> snd) tr)"
proof (induction vs arbitrary: w)
  case Nil
  then show ?case by (auto simp: plan_def)
next
  case (Cons v vs)
  show ?case
  proof (cases "mk v")
    case None
    with Cons.prems show ?thesis by (auto simp: plan_def)
  next
    case (Some opts)
    obtain err w1 where inv: "invoke ev m opts (log_Printf f [ArgInput (ev opts)] w) = (err, w1)"
      by (cases "invoke ev m opts (log_Printf f [ArgInput (ev opts)] w)")
    have c1: "calls w1 = calls w @ [(ev opts, err)]"
      using calls_invoke [OF inv] by simp
    show ?thesis
    proof (cases "absorbed err")
      case True
      then have "removeLoop mk f ev m (v # vs) w = removeLoop mk f ev m vs w1"
        using Some inv by (auto simp: absorbed_def)
      with Cons.prems have "removeLoop mk f ev m vs w1 = (r, w')" by simp
      from Cons.IH [OF this] obtain tr where tr:
        "calls w' = calls w1 @ tr" "map (Some \<circ> fst) tr = take (length tr) (plan mk ev vs)"
        "list_all (absorbed \<circ> snd) (butlast tr)"
        "(case r of
           None \<Rightarrow> length tr = length vs \<and> list_all (absorbed \<circ> snd) tr
         | Some (Returns eo) \<Rightarrow> tr \<noteq> [] \<and> snd (last tr) = eo \<and> \<not> absorbed eo
         | Some Panics \<Rightarrow> length tr < length vs \<and> mk (vs ! length tr) = None
              \<and> list_all (absorbed \<circ> snd) tr)"
        by blast
      let ?tr = "(ev opts, err) # tr"
      have "calls w' = calls w @ ?tr" using tr(1) c1 by simp
      moreover have "map (Some \<circ> fst) ?tr = take (length ?tr) (plan mk ev (v # vs))"
        using tr(2) Some by (simp add: plan_def)
      moreover have "list_all (absorbed \<circ> snd) (butlast ?tr)"
        using tr(3) True by simp
      moreover have "(case r of
           None \<Rightarrow> length ?tr = length (v # vs) \<and> list_all (absorbed \<circ> snd) ?tr
         | Some (Returns eo) \<Rightarrow> ?tr \<noteq> [] \<and> snd (last ?tr) = eo \<and> \<not> absorbed eo
         | Some Panics \<Rightarrow> length ?tr < length (v # vs) \<and> mk ((v # vs) ! length ?tr) = None
              \<and> list_all (absorbed \<circ> snd) ?tr)"
        using tr(4) True by (auto split: option.splits outcome.splits)
      ultimately show ?thesis by blast
    next
      case False
      then have "removeLoop mk f ev m (v # vs) w = (Some (Returns err), w1)"
        using Some inv by (auto simp: absorbed_def split: option.splits error.splits)
      with Cons.prems have r: "r = Some (Returns err)" "w' = w1" by simp_all
      show ?thesis
        apply (rule exI [of _ "[(ev opts, err)]"])
        using r c1 False Some by (simp add: plan_def)
    qed
  qed
qed

lemma addLoop_trace:
  "addLoop mk f ev m vs w = (r, w') \<Longrightarrow>
   \<exists>tr. calls w' = calls w @ tr \<and> map (Some \<circ> fst) tr = take (length tr) (plan mk ev vs)
     \<and> list_all (\<lambda>x. snd x = None) (butlast tr)
     \<and> (case r of
           None \<Rightarrow> length tr = length vs \<and> list_all (\<lambda>x. snd x = None) tr
         | Some (Returns eo) \<Rightarrow> tr \<noteq> [] \<and> snd (last tr) = eo \<and> eo \<noteq> None
         | Some Panics \<Rightarrow> length tr < length vs \<and> mk (vs ! length tr) = None
              \<and> list_all (\<lambda>x. snd x = None) tr)"
proof (induction vs arbitrary: w)
  case Nil
  then show ?case by (auto simp: plan_def)
next
  case (Cons v vs)
  show ?case
  proof (cases "mk v")
    case None
    with Cons.prems show ?thesis by (auto simp: plan_def)
  next
    case (Some opts)
    obtain res w1 where inv: "invokeR ev m opts (log_Printf f [ArgInput (ev opts)] w) = (res, w1)"
      by (cases "invokeR ev m opts (log_Printf f [ArgInput (ev opts)] w)")
    have c1: "calls w1 = calls w @ [(ev opts, errOf res)]"
      using calls_invokeR [OF inv] by simp
    show ?thesis
    proof (cases res)
      case (Inr a)
      then have "addLoop mk f ev m (v # vs) w = addLoop mk f ev m vs w1"
        using Some inv by simp
      with Cons.prems have "addLoop mk f ev m vs w1 = (r, w')" by simp
      from Cons.IH [OF this] obtain tr where tr:
        "calls w' = calls w1 @ tr" "map (Some \<circ> fst) tr = take (length tr) (plan mk ev vs)"
        "list_all (\<lambda>x. snd x = None) (butlast tr)"
        "(case r of
           None \<Rightarrow> length tr = length vs \<and> list_all (\<lambda>x. snd x = None) tr
         | Some (Returns eo) \<Rightarrow> tr \<noteq> [] \<and> snd (last tr) = eo \<and> eo \<noteq> None
         | Some Panics \<Rightarrow> length tr < length vs \<and> mk (vs ! length tr) = None
              \<and> list_all (\<lambda>x. snd x = None) tr)"
        by blast
      let ?tr = "(ev opts, errOf res) # tr"
      have e: "errOf res = None" using Inr by (simp add: errOf_def)
      have "calls w' = calls w @ ?tr" using tr(1) c1 by simp
      moreover have "map (Some \<circ> fst) ?tr = take (length ?tr) (plan mk ev (v # vs))"
        using tr(2) Some by (simp add: plan_def)
      moreover have "list_all (\<lambda>x. snd x = None) (butlast ?tr)"
        using tr(3) e by simp
      moreover have "(case r of
           None \<Rightarrow> length ?tr = length (v # vs) \<and> list_all (\<lambda>x. snd x = None) ?tr
         | Some (Returns eo) \<Rightarrow> ?tr \<noteq> [] \<and> snd (last ?tr) = eo \<and> eo \<noteq> None
         | Some Panics \<Rightarrow> length ?tr < length (v # vs) \<and> mk ((v # vs) ! length ?tr) = None
              \<and> list_all (\<lambda>x. snd x = None) ?tr)"
        using tr(4) e by (auto split: option.splits outcome.splits)
      ultimately show ?thesis by blast
    next
      case (Inl err)
      then have "addLoop mk f ev m (v # vs) w = (Some (Returns (Some err)), w1)"
        using Some inv by simp
      with Cons.prems have r: "r = Some (Returns (Some err))" "w' = w1" by simp_all
      show ?thesis
        apply (rule exI [of _ "[(ev opts, errOf res)]"])
        using r c1 Inl Some by (simp add: plan_def errOf_def)
    qed
  qed
qed

lemma removeThenAdd_trace:
  assumes "removeThenAdd mkD fD evD mD mkC fC evC mC (remove, add) w = (r, w')"
  shows "\<exists>ds cs. calls w' = calls w @ ds @ cs
     \<and> map (Some \<circ> fst) ds = take (length ds) (plan mkD evD remove)
     \<and> map (Some \<circ> fst) cs = take (length cs) (plan mkC evC add)
     \<and> list_all (absorbed \<circ> snd) (butlast ds)
     \<and> list_all (\<lambda>x. snd x = None) (butlast cs)
     \<and> (cs = [] \<or> length ds = length remove \<and> list_all (absorbed \<circ> snd) ds)
     \<and> (case r of
           Returns None \<Rightarrow>
             length ds = length remove \<and> length cs = length add
             \<and> list_all (absorbed \<circ> snd) ds \<and> list_all (\<lambda>x. snd x = None) cs
         | Returns (Some e) \<Rightarrow>
             (if cs = [] then ds \<noteq> [] \<and> snd (last ds) = Some e \<and> \<not> absorbed (Some e)
              else snd (last cs) = Some e)
         | Panics \<Rightarrow>
             list_all (absorbed \<circ> snd) ds \<and> list_all (\<lambda>x. snd x = None) cs
             \<and> (if length ds < length remove then cs = [] \<and> mkD (remove ! length ds) = None
                else length cs < length add \<and> mkC (add ! length cs) = None))"
proof -
  obtain r1 w1 where l1: "removeLoop mkD fD evD mD remove w = (r1, w1)"
    by (cases "removeLoop mkD fD evD mD remove w")
  from removeLoop_trace [OF l1] obtain ds where ds:
    "calls w1 = calls w @ ds" "map (Some \<circ> fst) ds = take (length ds) (plan mkD evD remove)"
    "list_all (absorbed \<circ> snd) (butlast ds)"
    "(case r1 of
           None \<Rightarrow> length ds = length remove \<and> list_all (absorbed \<circ> snd) ds
         | Some (Returns eo) \<Rightarrow> ds \<noteq> [] \<and> snd (last ds) = eo \<and> \<not> absorbed eo
         | Some Panics \<Rightarrow> length ds < length remove \<and> mkD (remove ! length ds) = None
              \<and> list_all (absorbed \<circ> snd) ds)"
    by blast
  show ?thesis
  proof (cases r1)
    case (Some out)
    with assms l1 have r: "r = out" "w' = w1" by (simp_all add: removeThenAdd_def)
    show ?thesis
      apply (rule exI [of _ ds], rule exI [of _ "[]"])
      using ds Some r by (auto split: outcome.splits option.splits simp: absorbed_def)
  next
    case None
    obtain r2 w2 where l2: "addLoop mkC fC evC mC add w1 = (r2, w2)"
      by (cases "addLoop mkC fC evC mC add w1")
    from addLoop_trace [OF l2] obtain cs where cs:
      "calls w2 = calls w1 @ cs" "map (Some \<circ> fst) cs = take (length cs) (plan mkC evC add)"
      "list_all (\<lambda>x. snd x = None) (butlast cs)"
      "(case r2 of
           None \<Rightarrow> length cs = length add \<and> list_all (\<lambda>x. snd x = None) cs
         | Some (Returns eo) \<Rightarrow> cs \<noteq> [] \<and> snd (last cs) = eo \<and> eo \<noteq> None
         | Some Panics \<Rightarrow> length cs < length add \<and> mkC (add ! length cs) = None
              \<and> list_all (\<lambda>x. snd x = None) cs)"
      by blast
    have r: "r = (case r2 of None \<Rightarrow> Returns None | Some out \<Rightarrow> out)" "w' = w2"
      using assms l1 l2 None by (auto simp: removeThenAdd_def split: option.splits)
    have d: "length ds = length remove" "list_all (absorbed \<circ> snd) ds"
      using ds(4) None by simp_all
    show ?thesis
      apply (rule exI [of _ ds], rule exI [of _ cs])
      using ds(1-3) cs d r by (auto split: outcome.splits option.splits)
  qed
qed

lemma computeDiff_sets:
  "set (fst (computeDiff (Some A, Some B))) = set A - set B"
  "set (snd (computeDiff (Some A, Some B))) = set B - set A"
  by (auto simp: computeDiff_def Difference_def List_def)

lemma computeDiff_same: "computeDiff (Some A, Some A) = ([], [])"
  by (simp add: computeDiff_def Difference_def List_def)

lemma removeThenAdd_nothing:
  "removeThenAdd mkD fD evD mD mkC fC evC mC ([], []) w = (Returns None, w)"
  by (simp add: removeThenAdd_def)

lemma plan_entries:
  assumes "map (Some \<circ> fst) tr = take n (plan mk ev vs)" and "\<And>i. P (ev i)"
    and "x \<in> set tr"
  shows "P (fst x)"
proof -
  have "Some (fst x) \<in> set (map (Some \<circ> fst) tr)" using assms(3) by force
  then have "Some (fst x) \<in> set (plan mk ev vs)"
    using assms(1) by (metis in_set_takeD)
  then obtain v where "Some (fst x) = map_option ev (mk v)"
    by (auto simp: plan_def)
  then show ?thesis using assms(2) by (cases "mk v") auto
qed

lemma create_not_delete: "isCreateCall c \<Longrightarrow> \<not> isDeleteCall c"
  by (cases c) simp_all

lemma issued_append: "calls w' = calls w @ tr \<Longrightarrow> issued w w' = tr"
  by (simp add: issued_def)

lemma removeThenAdd_deletes_before_creates:
  assumes D: "\<And>i. isDeleteCall (evD i)" and C: "\<And>j. isCreateCall (evC j)"
    and run: "removeThenAdd mkD fD evD mD mkC fC evC mC (remove, add) w = (r, w')"
  shows "calls w' = calls w @ issued w w'
     \<and> deletes_before_creates (plan mkD evD remove) (plan mkC evC add) (issued w w')"
proof -
  from removeThenAdd_trace [OF run] obtain ds cs where t:
    "calls w' = calls w @ ds @ cs"
    "map (Some \<circ> fst) ds = take (length ds) (plan mkD evD remove)"
    "map (Some \<circ> fst) cs = take (length cs) (plan mkC evC add)"
    "cs = [] \<or> length ds = length remove \<and> list_all (absorbed \<circ> snd) ds"
    by blast
  have i: "issued w w' = ds @ cs" using t(1) by (rule issued_append)
  have dd: "\<And>x. x \<in> set ds \<Longrightarrow> (isDeleteCall \<circ> fst) x"
    using plan_entries [OF t(2), of isDeleteCall] D by simp
  have cc: "\<And>x. x \<in> set cs \<Longrightarrow> isCreateCall (fst x)"
    using plan_entries [OF t(3), of isCreateCall] C by simp
  then have nd: "\<And>x. x \<in> set cs \<Longrightarrow> \<not> (isDeleteCall \<circ> fst) x"
    by (simp add: create_not_delete)
  have tw: "takeWhile (isDeleteCall \<circ> fst) cs = []" "dropWhile (isDeleteCall \<circ> fst) cs = cs"
    using nd by (cases cs; simp)+
  have 1: "takeWhile (isDeleteCall \<circ> fst) (ds @ cs) = ds"
    using dd tw by (simp add: takeWhile_append2)
  have 2: "dropWhile (isDeleteCall \<circ> fst) (ds @ cs) = cs"
    using dd tw by (simp add: dropWhile_append2)
  have 3: "list_all (isCreateCall \<circ> fst) cs"
    using cc by (simp add: list_all_iff)
  have 4: "length (plan mkD evD remove) = length remove" by (simp add: plan_def)
  show ?thesis
    unfolding i deletes_before_creates_def Let_def 1 2 4
    using t 3 by simp
qed

lemma removeThenAdd_only_deletes_and_creates:
  assumes D: "\<And>i. isDeleteCall (evD i)" and C: "\<And>j. isCreateCall (evC j)"
    and run: "removeThenAdd mkD fD evD mD mkC fC evC mC (remove, add) w = (r, w')"
  shows "list_all (\<lambda>x. isDeleteCall (fst x) \<or> isCreateCall (fst x)) (issued w w')"
proof -
  from removeThenAdd_trace [OF run] obtain ds cs where t:
    "calls w' = calls w @ ds @ cs"
    "map (Some \<circ> fst) ds = take (length ds) (plan mkD evD remove)"
    "map (Some \<circ> fst) cs = take (length cs) (plan mkC evC add)"
    by blast
  have i: "issued w w' = ds @ cs" using t(1) by (rule issued_append)
  have dd: "\<And>x. x \<in> set ds \<Longrightarrow> isDeleteCall (fst x)"
    using plan_entries [OF t(2), of isDeleteCall] D by simp
  have cc: "\<And>x. x \<in> set cs \<Longrightarrow> isCreateCall (fst x)"
    using plan_entries [OF t(3), of isCreateCall] C by simp
  show ?thesis unfolding i using dd cc by (auto simp: list_all_iff)
qed

lemma absorbed_not_fatal: "isDeleteCall (fst x) \<Longrightarrow> absorbed (snd x) \<Longrightarrow> \<not> fatal x"
  by (auto simp: fatal_def absorbed_def)

lemma None_not_fatal: "snd x = None \<Longrightarrow> \<not> fatal x"
  by (simp add: fatal_def)

lemma removeThenAdd_stops:
  assumes D: "\<And>i. isDeleteCall (evD i)" and C: "\<And>j. isCreateCall (evC j)"
    and run: "removeThenAdd mkD fD evD mD mkC fC evC mC (remove, add) w = (r, w')"
  shows "stops_at_fatal r (issued w w') \<and> error_from_last_call r (issued w w')"
proof -
  from removeThenAdd_trace [OF run] obtain ds cs where t:
    "calls w' = calls w @ ds @ cs"
    "map (Some \<circ> fst) ds = take (length ds) (plan mkD evD remove)"
    "map (Some \<circ> fst) cs = take (length cs) (plan mkC evC add)"
    "list_all (absorbed \<circ> snd) (butlast ds)"
    "list_all (\<lambda>x. snd x = None) (butlast cs)"
    "cs = [] \<or> length ds = length remove \<and> list_all (absorbed \<circ> snd) ds"
    and r: "(case r of
           Returns None \<Rightarrow>
             length ds = length remove \<and> length cs = length add
             \<and> list_all (absorbed \<circ> snd) ds \<and> list_all (\<lambda>x. snd x = None) cs
         | Returns (Some e) \<Rightarrow>
             (if cs = [] then ds \<noteq> [] \<and> snd (last ds) = Some e \<and> \<not> absorbed (Some e)
              else snd (last cs) = Some e)
         | Panics \<Rightarrow>
             list_all (absorbed \<circ> snd) ds \<and> list_all (\<lambda>x. snd x = None) cs
             \<and> (if length ds < length remove then cs = [] \<and> mkD (remove ! length ds) = None
                else length cs < length add \<and> mkC (add ! length cs) = None))"
    by blast
  have i: "issued w w' = ds @ cs" using t(1) by (rule issued_append)
  have dd: "\<And>x. x \<in> set ds \<Longrightarrow> isDeleteCall (fst x)"
    using plan_entries [OF t(2), of isDeleteCall] D by simp
  have cc: "\<And>x. x \<in> set cs \<Longrightarrow> isCreateCall (fst x)"
    using plan_entries [OF t(3), of isCreateCall] C by simp
  have bd: "list_all (\<lambda>x. \<not> fatal x) (butlast ds)"
    unfolding list_all_iff
  proof
    fix x assume x: "x \<in> set (butlast ds)"
    then have "absorbed (snd x)" using t(4) by (simp add: list_all_iff)
    moreover have "isDeleteCall (fst x)" using x dd by (blast dest: in_set_butlastD)
    ultimately show "\<not> fatal x" by (rule absorbed_not_fatal [rotated])
  qed
  have bc: "list_all (\<lambda>x. \<not> fatal x) (butlast cs)"
    using t(5) by (auto simp: list_all_iff None_not_fatal)
  have ad: "list_all (absorbed \<circ> snd) ds \<Longrightarrow> list_all (\<lambda>x. \<not> fatal x) ds"
    using dd by (auto simp: list_all_iff absorbed_not_fatal)
  have ac: "list_all (\<lambda>x. snd x = None) cs \<Longrightarrow> list_all (\<lambda>x. \<not> fatal x) cs"
    by (auto simp: list_all_iff None_not_fatal)
  have b: "list_all (\<lambda>x. \<not> fatal x) (butlast (ds @ cs))"
    using bd bc ad t(6) by (auto simp: butlast_append)
  have l: "ds @ cs \<noteq> [] \<Longrightarrow> fatal (last (ds @ cs)) \<Longrightarrow> r = Returns (snd (last (ds @ cs)))"
  proof -
    assume ne: "ds @ cs \<noteq> []" and f: "fatal (last (ds @ cs))"
    have nf: "list_all (\<lambda>x. \<not> fatal x) ds \<Longrightarrow> list_all (\<lambda>x. \<not> fatal x) cs \<Longrightarrow> False"
      using ne f by (auto simp: list_all_iff last_append split: if_splits)
    show ?thesis
    proof (cases r)
      case Panics
      then show ?thesis using r ad ac nf by simp
    next
      case (Returns eo)
      show ?thesis
      proof (cases eo)
        case None
        then show ?thesis using Returns r ad ac nf by simp
      next
        case (Some e)
        then show ?thesis using Returns r by (auto simp: last_append split: if_splits)
      qed
    qed
  qed
  have e: "error_from_last_call r (ds @ cs)"
  proof (cases r)
    case Panics
    then show ?thesis by (simp add: error_from_last_call_def)
  next
    case (Returns eo)
    show ?thesis
    proof (cases eo)
      case None
      then show ?thesis using Returns by (simp add: error_from_last_call_def)
    next
      case (Some e)
      show ?thesis
      proof (cases "cs = []")
        case True
        then have "ds \<noteq> []" "snd (last ds) = Some e" "\<not> absorbed (Some e)"
          using r Returns Some by simp_all
        then show ?thesis
          using True Returns Some
          by (auto simp: error_from_last_call_def fatal_def absorbed_def)
      next
        case False
        then have "snd (last cs) = Some e" using r Returns Some by simp
        moreover have "isCreateCall (fst (last cs))" using cc False by simp
        ultimately show ?thesis
          using False Returns Some create_not_delete
          by (auto simp: error_from_last_call_def fatal_def)
      qed
    qed
  qed
  show ?thesis
    unfolding i stops_at_fatal_def using b l e by auto
qed

lemma removeThenAdd_run_to_end:
  assumes D: "\<And>i. isDeleteCall (evD i)" and C: "\<And>j. isCreateCall (evC j)"
    and run: "removeThenAdd mkD fD evD mD mkC fC evC mC (remove, add) w = (r, w')"
  shows "run_to_end (plan mkD evD remove @ plan mkC evC add) r (issued w w')"
proof -
  let ?pd = "plan mkD evD remove" and ?pc = "plan mkC evC add"
  from removeThenAdd_trace [OF run] obtain ds cs where t:
    "calls w' = calls w @ ds @ cs"
    "map (Some \<circ> fst) ds = take (length ds) ?pd"
    "map (Some \<circ> fst) cs = take (length cs) ?pc"
    "cs = [] \<or> length ds = length remove \<and> list_all (absorbed \<circ> snd) ds"
    and r: "(case r of
           Returns None \<Rightarrow>
             length ds = length remove \<and> length cs = length add
             \<and> list_all (absorbed \<circ> snd) ds \<and> list_all (\<lambda>x. snd x = None) cs
         | Returns (Some e) \<Rightarrow>
             (if cs = [] then ds \<noteq> [] \<and> snd (last ds) = Some e \<and> \<not> absorbed (Some e)
              else snd (last cs) = Some e)
         | Panics \<Rightarrow>
             list_all (absorbed \<circ> snd) ds \<and> list_all (\<lambda>x. snd x = None) cs
             \<and> (if length ds < length remove then cs = [] \<and> mkD (remove ! length ds) = None
                else length cs < length add \<and> mkC (add ! length cs) = None))"
    by blast
  have i: "issued w w' = ds @ cs" using t(1) by (rule issued_append)
  have lp: "length ?pd = length remove" "length ?pc = length add" by (simp_all add: plan_def)
  have ld: "length ds \<le> length remove"
  proof -
    have "length ds = length (take (length ds) ?pd)"
      using arg_cong [OF t(2), of length] by simp
    then show ?thesis using lp by simp
  qed
  have lc: "length cs \<le> length add"
  proof -
    have "length cs = length (take (length cs) ?pc)"
      using arg_cong [OF t(3), of length] by simp
    then show ?thesis using lp by simp
  qed
  have dd: "\<And>x. x \<in> set ds \<Longrightarrow> isDeleteCall (fst x)"
    using plan_entries [OF t(2), of isDeleteCall] D by simp
  have cc: "\<And>x. x \<in> set cs \<Longrightarrow> isCreateCall (fst x)"
    using plan_entries [OF t(3), of isCreateCall] C by simp
  have ad: "list_all (absorbed \<circ> snd) ds \<Longrightarrow> list_all (\<lambda>x. \<not> fatal x) ds"
    using dd by (auto simp: list_all_iff absorbed_not_fatal)
  have ac: "list_all (\<lambda>x. snd x = None) cs \<Longrightarrow> list_all (\<lambda>x. \<not> fatal x) cs"
    by (auto simp: list_all_iff None_not_fatal)
  have pre: "map (Some \<circ> fst) (ds @ cs) = take (length (ds @ cs)) (?pd @ ?pc)"
  proof (cases "cs = []")
    case True
    then show ?thesis using t(2) ld lp by simp
  next
    case False
    then have "length ds = length remove" using t(4) by simp
    then show ?thesis using t(2) t(3) lp by simp
  qed
  have e: "error_from_last_call r (ds @ cs)"
    using removeThenAdd_stops [OF D C run] i by simp
  have c: "(case r of
            Returns None \<Rightarrow> map (Some \<circ> fst) (ds @ cs) = ?pd @ ?pc
                \<and> list_all (\<lambda>x. \<not> fatal x) (ds @ cs)
          | Returns (Some e) \<Rightarrow> ds @ cs \<noteq> [] \<and> snd (last (ds @ cs)) = Some e
                \<and> fatal (last (ds @ cs))
          | Panics \<Rightarrow>
              length (ds @ cs) < length (?pd @ ?pc) \<and> (?pd @ ?pc) ! length (ds @ cs) = None
              \<and> list_all (\<lambda>x. \<not> fatal x) (ds @ cs))"
  proof (cases r)
    case Panics
    then have p: "list_all (absorbed \<circ> snd) ds" "list_all (\<lambda>x. snd x = None) cs"
      "(if length ds < length remove then cs = [] \<and> mkD (remove ! length ds) = None
                else length cs < length add \<and> mkC (add ! length cs) = None)"
      using r by simp_all
    show ?thesis
    proof (cases "length ds < length remove")
      case True
      then have "cs = []" "mkD (remove ! length ds) = None" using p(3) by simp_all
      then show ?thesis
        using Panics True p(1) ad lp by (simp add: nth_append plan_def)
    next
      case False
      then have l: "length ds = length remove" "length cs < length add"
        "mkC (add ! length cs) = None"
        using p(3) ld by simp_all
      then show ?thesis
        using Panics p(1,2) ad ac lp by (simp add: nth_append plan_def)
    qed
  next
    case (Returns eo)
    show ?thesis
    proof (cases eo)
      case None
      then have n: "length ds = length remove" "length cs = length add"
        "list_all (absorbed \<circ> snd) ds" "list_all (\<lambda>x. snd x = None) cs"
        using r Returns by simp_all
      then show ?thesis
        using Returns None t(2) t(3) lp ad ac by simp
    next
      case (Some e)
      then show ?thesis
        using Returns e by (simp add: error_from_last_call_def)
    qed
  qed
  show ?thesis
    unfolding i run_to_end_def by (rule conjI [OF pre c])
qed

lemma run_to_end_continues:
  assumes "run_to_end pl r tr"
  shows "continues_after_404 pl r tr"
  unfolding continues_after_404_def
proof (intro allI impI)
  fix i
  assume i: "i < length tr"
    and d: "isDeleteCall (fst (tr ! i)) \<and> snd (tr ! i) = Some (HTTPError 404)"
  have pre: "map (Some \<circ> fst) tr = take (length tr) pl"
    using assms by (simp add: run_to_end_def)
  have len: "length tr \<le> length pl"
    using arg_cong [OF pre, of length] by simp
  have nf: "\<not> fatal (tr ! i)" using d by (simp add: fatal_def)
  show "if Suc i < length tr then Some (fst (tr ! Suc i)) = pl ! Suc i
        else if Suc i < length pl then pl ! Suc i = None \<and> r = Panics
        else r = Returns None"
  proof (cases "Suc i < length tr")
    case True
    have "map (Some \<circ> fst) tr ! Suc i = take (length tr) pl ! Suc i" using pre by simp
    then show ?thesis using True by simp
  next
    case False
    then have l: "Suc i = length tr" using i by simp
    have "tr \<noteq> []" using i by auto
    then have last: "last tr = tr ! i"
      using l by (simp add: last_conv_nth flip: l)
    show ?thesis
    proof (cases r)
      case Panics
      then show ?thesis using assms l False by (simp add: run_to_end_def)
    next
      case (Returns eo)
      show ?thesis
      proof (cases eo)
        case None
        note c = assms [unfolded run_to_end_def, THEN conjunct2]
        have m: "map (Some \<circ> fst) tr = pl"
          using c Returns None by simp
        have "length pl = length tr"
          using arg_cong [OF m, of length] by simp
        then show ?thesis using Returns None l False by simp
      next
        case (Some e)
        then have "fatal (last tr)" using assms Returns by (simp add: run_to_end_def)
        then show ?thesis using nf last by simp
      qed
    qed
  qed
qed

lemma same_run_refl [simp]: "same_run w w"
  by (simp add: same_run_def)

lemma invoke_absorb404:
  assumes "same_run w v"
  obtains e w1 v1 where
    "invoke ev m opts (log_Printf f a w) = (e, w1)"
    "invoke ev (absorb404 m) opts (log_Printf f a v) = (if e = Some (HTTPError 404) then None else e, v1)"
    "same_run w1 v1"
  using assms
  by (cases "m opts (remote v)") (auto simp: invoke_def absorb404_def same_run_def log_Printf_def)

lemma removeLoop_absorb404:
  "same_run w v \<Longrightarrow>
   fst (removeLoop mk f ev m vs w) = fst (removeLoop mk f ev (absorb404 m) vs v)
   \<and> same_run (snd (removeLoop mk f ev m vs w)) (snd (removeLoop mk f ev (absorb404 m) vs v))"
proof (induction vs arbitrary: w v)
  case Nil
  then show ?case by simp
next
  case (Cons x vs)
  show ?case
  proof (cases "mk x")
    case None
    then show ?thesis using Cons.prems by simp
  next
    case (Some opts)
    from Cons.prems obtain e w1 v1 where
      a: "invoke ev m opts (log_Printf f [ArgInput (ev opts)] w) = (e, w1)"
      and b: "invoke ev (absorb404 m) opts (log_Printf f [ArgInput (ev opts)] v)
            = (if e = Some (HTTPError 404) then None else e, v1)"
      and c: "same_run w1 v1"
      by (rule invoke_absorb404)
    show ?thesis
    proof (cases "absorbed e")
      case True
      then have "removeLoop mk f ev m (x # vs) w = removeLoop mk f ev m vs w1"
        "removeLoop mk f ev (absorb404 m) (x # vs) v = removeLoop mk f ev (absorb404 m) vs v1"
        using Some a b by (auto simp: absorbed_def)
      then show ?thesis using Cons.IH [OF c] by simp
    next
      case False
      then have "removeLoop mk f ev m (x # vs) w = (Some (Returns e), w1)"
        "removeLoop mk f ev (absorb404 m) (x # vs) v = (Some (Returns e), v1)"
        using Some a b by (auto simp: absorbed_def split: option.splits error.splits)
      then show ?thesis using c by simp
    qed
  qed
qed

lemma addLoop_same_run:
  "same_run w v \<Longrightarrow>
   fst (addLoop mk f ev m vs w) = fst (addLoop mk f ev m vs v)
   \<and> same_run (snd (addLoop mk f ev m vs w)) (snd (addLoop mk f ev m vs v))"
proof (induction vs arbitrary: w v)
  case Nil
  then show ?case by simp
next
  case (Cons x vs)
  show ?case
  proof (cases "mk x")
    case None
    then show ?thesis using Cons.prems by simp
  next
    case (Some opts)
    obtain res w1 where a: "invokeR ev m opts (log_Printf f [ArgInput (ev opts)] w) = (res, w1)"
      by (cases "invokeR ev m opts (log_Printf f [ArgInput (ev opts)] w)")
    obtain res' v1 where b': "invokeR ev m opts (log_Printf f [ArgInput (ev opts)] v) = (res', v1)"
      by (cases "invokeR ev m opts (log_Printf f [ArgInput (ev opts)] v)")
    have "res' = res" and c: "same_run w1 v1"
      using a b' Cons.prems
      by (auto simp: invokeR_def same_run_def log_Printf_def split: prod.splits)
    with b' have b: "invokeR ev m opts (log_Printf f [ArgInput (ev opts)] v) = (res, v1)"
      by simp
    show ?thesis
    proof (cases res)
      case (Inl e)
      then show ?thesis using Some a b c by simp
    next
      case (Inr y)
      then have "addLoop mk f ev m (x # vs) w = addLoop mk f ev m vs w1"
        "addLoop mk f ev m (x # vs) v = addLoop mk f ev m vs v1"
        using Some a b by simp_all
      then show ?thesis using Cons.IH [OF c] by simp
    qed
  qed
qed

lemma removeThenAdd_absorb404:
  "fst (removeThenAdd mkD fD evD mD mkC fC evC mC ra w)
     = fst (removeThenAdd mkD fD evD (absorb404 mD) mkC fC evC mC ra w)
   \<and> same_run (snd (removeThenAdd mkD fD evD mD mkC fC evC mC ra w))
        (snd (removeThenAdd mkD fD evD (absorb404 mD) mkC fC evC mC ra w))"
proof -
  obtain remove add where ra: "ra = (remove, add)" by (cases ra)
  obtain r1 w1 where l1: "removeLoop mkD fD evD mD remove w = (r1, w1)"
    by (cases "removeLoop mkD fD evD mD remove w")
  obtain r1' v1 where l1': "removeLoop mkD fD evD (absorb404 mD) remove w = (r1', v1)"
    by (cases "removeLoop mkD fD evD (absorb404 mD) remove w")
  have e: "r1' = r1" "same_run w1 v1"
    using removeLoop_absorb404 [OF same_run_refl, of mkD fD evD mD remove w] l1 l1' by simp_all
  show ?thesis
  proof (cases r1)
    case (Some out)
    then show ?thesis using ra l1 l1' e by (simp add: removeThenAdd_def)
  next
    case None
    then show ?thesis
      using ra l1 l1' e addLoop_same_run [OF e(2), of mkC fC evC mC add]
      by (auto simp: removeThenAdd_def split: prod.splits option.splits)
  qed
qed

lemma Package_Process_calls:
  "issued w (snd (Package_Process h D d v conn w)) = [] \<or>
   (\<exists>b rest fn.
      d_GetOk D d (GetKey h) = (b # rest, True) \<and> b ''filename'' = Some (VString fn)
      \<and> map fst (issued w (snd (Package_Process h D d v conn w)))
          = [UpdatePackage_call
               \<lparr>UpdatePackageInput.ServiceID = d_Id D d,
                UpdatePackageInput.ServiceVersion = v,
                UpdatePackageInput.PackagePath = fn\<rparr>])"
proof (cases "d_GetOk D d (GetKey h)")
  case (Pair bs ok)
  show ?thesis
  proof (cases "ok \<and> bs \<noteq> [] \<and> assertString (hd bs ''filename'') \<noteq> None")
    case False
    then have "snd (Package_Process h D d v conn w) = w"
      using Pair by (auto simp: Package_Process_def split: list.splits option.splits)
    then show ?thesis by (simp add: issued_def)
  next
    case True
    then obtain b rest fn where b: "bs = b # rest" "ok" "assertString (b ''filename'') = Some fn"
      by (cases bs) auto
    then have f: "b ''filename'' = Some (VString fn)"
      by (cases "b ''filename''" rule: assertString.cases) simp_all
    have "map fst (issued w (snd (Package_Process h D d v conn w)))
          = [UpdatePackage_call
               \<lparr>UpdatePackageInput.ServiceID = d_Id D d,
                UpdatePackageInput.ServiceVersion = v,
                UpdatePackageInput.PackagePath = fn\<rparr>]"
      using Pair b
      by (simp add: Package_Process_def updatePackage_def invokeR_def issued_def
          split: prod.splits option.splits)
    moreover have "d_GetOk D d (GetKey h) = (b # rest, True)" using Pair b by simp
    ultimately show ?thesis using f
      by (intro disjI2 exI [of _ b] exI [of _ rest] exI [of _ fn] conjI)
  qed
qed

lemma Package_Process_declared:
  assumes "d_GetOk D d (GetKey h) = (b # rest, True)" and "b ''filename'' = Some (VString fn)"
  shows "issued w (snd (Package_Process h D d v conn w))
     = [(UpdatePackage_call
           \<lparr>UpdatePackageInput.ServiceID = d_Id D d,
            UpdatePackageInput.ServiceVersion = v,
            UpdatePackageInput.PackagePath = fn\<rparr>,
         errOf (fst (UpdatePackage conn
           \<lparr>UpdatePackageInput.ServiceID = d_Id D d,
            UpdatePackageInput.ServiceVersion = v,
            UpdatePackageInput.PackagePath = fn\<rparr> (remote w))))]"
  using assms
  by (simp add: Package_Process_def updatePackage_def invokeR_def issued_def
      split: prod.splits option.splits)

lemma Package_Process_not_declared:
  assumes "snd (d_GetOk D d (GetKey h)) = False"
  shows "Package_Process h D d v conn w = (Returns None, w)"
  using assms by (cases "d_GetOk D d (GetKey h)") (simp add: Package_Process_def)

lemma Package_Process_no_delete_create:
  "list_all (\<lambda>x. \<not> isDeleteCall (fst x) \<and> \<not> isCreateCall (fst x))
     (issued w (snd (Package_Process h D d v conn w)))"
proof -
  from Package_Process_calls [of w h D d v conn]
  show ?thesis
  proof
    assume "issued w (snd (Package_Process h D d v conn w)) = []"
    then show ?thesis by simp
  next
    assume "\<exists>b rest fn.
      d_GetOk D d (GetKey h) = (b # rest, True) \<and> b ''filename'' = Some (VString fn)
      \<and> map fst (issued w (snd (Package_Process h D d v conn w)))
          = [UpdatePackage_call
               \<lparr>UpdatePackageInput.ServiceID = d_Id D d,
                UpdatePackageInput.ServiceVersion = v,
                UpdatePackageInput.PackagePath = fn\<rparr>]"
    then obtain c where m: "map fst (issued w (snd (Package_Process h D d v conn w)))
          = [UpdatePackage_call c]"
      by (elim exE conjE)
    have "list_all (\<lambda>c. \<not> isDeleteCall c \<and> \<not> isCreateCall c)
        (map fst (issued w (snd (Package_Process h D d v conn w))))"
      unfolding m by simp
    then show ?thesis by (simp add: list_all_iff)
  qed
qed

section \<open>Lemmas about the normalizers\<close>

lemma pruneEmpty_apply:
  "pruneEmpty ks m k = (if k \<in> set ks \<and> m k = Some (VString []) then None else m k)"
  unfolding pruneEmpty_def
  by (induction ks arbitrary: m) auto

lemma pruneEmpty_dom:
  "dom m \<subseteq> set ks \<Longrightarrow>
   pruneEmpty ks m = (\<lambda>k. if m k = Some (VString []) then None else m k)"
  by (rule ext) (auto simp: pruneEmpty_apply)

lemma pruneEmpty_order: "set ks = set ks' \<Longrightarrow> pruneEmpty ks m = pruneEmpty ks' m"
  by (rule ext) (simp add: pruneEmpty_apply)

lemma dom_vclMap: "dom (vclMap acl) = {''acl_id'', ''name''}"
  by (auto simp: vclMap_def)

lemma dom_LEMapString:
  "dom (LEMapString le) = {''name'', ''port'', ''use_tls'', ''token'', ''format'',
      ''format_version'', ''response_condition'', ''placement''}"
  by (auto simp: LEMapString_def)

lemma flattenACLs_map:
  "flattenACLs acls =
     map (\<lambda>acl k. if vclMap acl k = Some (VString []) then None else vclMap acl k) acls"
  by (induction acls) (simp_all add: pruneEmpty_dom dom_vclMap)

lemma flattenLogentries_map:
  "flattenLogentries les =
     map (\<lambda>le k. if LEMapString le k = Some (VString []) then None else LEMapString le k) les"
  by (induction les) (simp_all add: pruneEmpty_dom dom_LEMapString)

section \<open>Lemmas about the examples\<close>

lemma aclBlock_eq [simp]: "aclBlock a = aclBlock b \<longleftrightarrow> a = b"
  by (auto simp: aclBlock_def dest: map_upd_eqD1)

lemma aclBlock_name [simp]: "aclBlock n ''name'' = Some (VString n)"
  by (simp add: aclBlock_def)

lemma leBlock_eq [simp]: "leBlock a p = leBlock b q \<longleftrightarrow> a = b \<and> p = q"
proof
  assume e: "leBlock a p = leBlock b q"
  from fun_cong [OF e, of "''name''"] fun_cong [OF e, of "''port''"]
  show "a = b \<and> p = q" by (simp add: leBlock_def)
qed simp

lemma leBlock_fields [simp]:
  "leBlock n p ''name'' = Some (VString n)"
  "leBlock n p ''port'' = Some (VInt p)"
  "leBlock n p ''use_tls'' = Some (VBool True)"
  "leBlock n p ''token'' = Some (VString ''tok'')"
  by (simp_all add: leBlock_def)

lemma pkgBlock_filename [simp]: "pkgBlock fn ''filename'' = Some (VString fn)"
  by (simp add: pkgBlock_def)

lemma issued_world0 [simp]: "issued (world0 s) w' = calls w'"
  by (simp add: issued_def world0_def)

lemmas demo_defs =
  NewServiceACL_def NewServiceLogentries_def NewServicePackage_def demoD_def demoData0_def
  demoClient_def world0_def GetKey_def computeDiff_def Difference_def List_def new_Set_def
  removeThenAdd_def ACL_deleteOpts_def ACL_createOpts_def Logentries_deleteOpts_def
  Logentries_createOpts_def demoVLA_def demoUintOrDefault_def uint_of_int_def
  invoke_def invokeR_def log_Printf_def demoDelete_def demoCreate_def errOf_def Let_def

lemmas demo_calls = aclDelete_def aclCreate_def leDelete_def leCreate_def

lemma demo_rename_run:
  "Logentries_Process demoVLA demoUintOrDefault (NewServiceLogentries demoSM) demoD
     (demoData0\<lparr>dd_old := Some [leBlock ''k'' 1], dd_new := Some [leBlock ''k'' 2]\<rparr>)
     7 demoClient (world0 [''k''])
   = (Returns None,
      \<lparr>remote = [''k''],
       calls = [(leDelete ''k'', None), (leCreate ''k'' 2, None)],
       logs =
         [(''[DEBUG] Fastly Logentries removal opts: %#v'', [ArgInput (leDelete ''k'')]),
          (''[DEBUG] Create Logentries Opts: %#v'', [ArgInput (leCreate ''k'' 2)])]\<rparr>)"
  by (simp add: Logentries_Process_eq demo_defs demo_calls)

lemma demo_rename_plan:
  "computeDiff (d_GetChange demoD
      (demoData0\<lparr>dd_old := Some [leBlock ''k'' 1], dd_new := Some [leBlock ''k'' 2]\<rparr>)
      (GetKey (NewServiceLogentries demoSM)))
   = ([leBlock ''k'' 1], [leBlock ''k'' 2])"
  by (simp add: demo_defs)

lemma demo_not_found_run:
  "ACL_Process (NewServiceACL demoSM) demoD
     (demoData0\<lparr>dd_old := Some [aclBlock ''x'', aclBlock ''b''],
                dd_new := Some [aclBlock ''c'']\<rparr>)
     7 demoClient (world0 [''b''])
   = (Returns None,
      \<lparr>remote = [''c''],
       calls = [(aclDelete ''x'', Some (HTTPError 404)), (aclDelete ''b'', None),
                (aclCreate ''c'', None)],
       logs =
         [(''[DEBUG] Fastly ACL removal opts: %#v'', [ArgInput (aclDelete ''x'')]),
          (''[DEBUG] Fastly ACL removal opts: %#v'', [ArgInput (aclDelete ''b'')]),
          (''[DEBUG] Fastly ACL creation opts: %#v'', [ArgInput (aclCreate ''c'')])]\<rparr>)"
  by (simp add: ACL_Process_eq demo_defs demo_calls)

lemma demo_second_create_fails_run:
  "ACL_Process (NewServiceACL demoSM) demoD
     (demoData0\<lparr>dd_new := Some [aclBlock ''a'', aclBlock ''b'', aclBlock ''c'']\<rparr>)
     7 demoClient (world0 [''b''])
   = (Returns (Some (HTTPError 409)),
      \<lparr>remote = [''b'', ''a''],
       calls = [(aclCreate ''a'', None), (aclCreate ''b'', Some (HTTPError 409))],
       logs =
         [(''[DEBUG] Fastly ACL creation opts: %#v'', [ArgInput (aclCreate ''a'')]),
          (''[DEBUG] Fastly ACL creation opts: %#v'', [ArgInput (aclCreate ''b'')])]\<rparr>)"
  by (simp add: ACL_Process_eq demo_defs demo_calls)

lemma demo_delete_fails_run:
  "ACL_Process (NewServiceACL demoSM) demoD
     (demoData0\<lparr>dd_old := Some [aclBlock ''a'', aclBlock ''locked'', aclBlock ''b''],
                dd_new := Some [aclBlock ''c'']\<rparr>)
     7 demoClient (world0 [''a'', ''locked'', ''b''])
   = (Returns (Some (HTTPError 500)),
      \<lparr>remote = [''locked'', ''b''],
       calls = [(aclDelete ''a'', None), (aclDelete ''locked'', Some (HTTPError 500))],
       logs =
         [(''[DEBUG] Fastly ACL removal opts: %#v'', [ArgInput (aclDelete ''a'')]),
          (''[DEBUG] Fastly ACL removal opts: %#v'', [ArgInput (aclDelete ''locked'')])]\<rparr>)"
  by (simp add: ACL_Process_eq demo_defs demo_calls)

lemma demo_nil_old_run:
  "ACL_Process (NewServiceACL demoSM) demoD (demoData0\<lparr>dd_new := Some [aclBlock ''c'']\<rparr>)
     7 demoClient (world0 [])
   = (Returns None,
      \<lparr>remote = [''c''], calls = [(aclCreate ''c'', None)],
       logs = [(''[DEBUG] Fastly ACL creation opts: %#v'', [ArgInput (aclCreate ''c'')])]\<rparr>)"
  by (simp add: ACL_Process_eq demo_defs demo_calls)

lemma demo_package_run:
  "Package_Process (NewServicePackage demoSM) demoD
     (demoData0\<lparr>dd_package := [pkgBlock ''pkg.tar.gz'']\<rparr>) 7 demoClient (world0 [])
   = (Returns None,
      \<lparr>remote = [], calls = [(pkgUpdate ''pkg.tar.gz'', None)], logs = []\<rparr>)"
  by (simp add: Package_Process_def updatePackage_def pkgUpdate_def demo_defs)

lemma demo_not_found_plan:
  "computeDiff (d_GetChange demoD
      (demoData0\<lparr>dd_old := Some [aclBlock ''x'', aclBlock ''b''],
                 dd_new := Some [aclBlock ''c'']\<rparr>)
      (GetKey (NewServiceACL demoSM)))
   = ([aclBlock ''x'', aclBlock ''b''], [aclBlock ''c''])"
  by (simp add: demo_defs)

lemma demo_acl_plans:
  "plan (ACL_deleteOpts (d_Id demoD (demoData0\<lparr>dd_old := Some A, dd_new := Some B\<rparr>)) 7)
     DeleteACL_call [aclBlock ''x'', aclBlock ''b'']
   = [Some (aclDelete ''x''), Some (aclDelete ''b'')]"
  "plan (ACL_createOpts (d_Id demoD (demoData0\<lparr>dd_old := Some A, dd_new := Some B\<rparr>)) 7)
     CreateACL_call [aclBlock ''c'']
   = [Some (aclCreate ''c'')]"
  by (simp_all add: plan_def demo_defs demo_calls)

lemma demo_le_plans:
  "plan (Logentries_deleteOpts
           (d_Id demoD (demoData0\<lparr>dd_old := Some A, dd_new := Some B\<rparr>)) 7)
     DeleteLogentries_call [leBlock ''k'' 1]
   = [Some (leDelete ''k'')]"
  "plan (Logentries_createOpts demoVLA demoUintOrDefault (NewServiceLogentries demoSM)
           (d_Id demoD (demoData0\<lparr>dd_old := Some A, dd_new := Some B\<rparr>)) 7)
     CreateLogentries_call [leBlock ''k'' 2]
   = [Some (leCreate ''k'' 2)]"
  by (simp_all add: plan_def demo_defs demo_calls)

lemma demo_no_package_run:
  "snd (d_GetOk demoD demoData0 (GetKey (NewServicePackage demoSM))) = False"
  by (simp add: demo_defs)

section \<open>The claims\<close>

text \<open>
  Claim C1.  For all collections \<open>A\<close> and \<open>B\<close> the write path computes the removal list as
  exactly \<open>A - B\<close> and the addition list as exactly \<open>B - A\<close>, under structural equality of
  blocks: both \<^verbatim>\<open>Process\<close> methods run their delete loop over the blocks of \<open>A\<close> that are
  not in \<open>B\<close> and their create loop over the blocks of \<open>B\<close> that are not in \<open>A\<close>.  For
  \<open>A = B\<close> both lists are empty, and \<^verbatim>\<open>Process\<close> returns nil leaving the world as it was:
  no remote call is made.
\<close>

theorem C1_diff:
  "set (fst (computeDiff (Some A, Some B))) = set A - set B
   \<and> set (snd (computeDiff (Some A, Some B))) = set B - set A
   \<and> computeDiff (Some A, Some A) = ([], [])
   \<and> (d_GetChange D d (GetKey h) = (Some A, Some B) \<longrightarrow>
        ACL_Process h D d v conn w =
          (case ACL_removeLoop D d v conn (filter (\<lambda>x. x \<notin> set B) A) w of
             (Some out, w1) \<Rightarrow> (out, w1)
           | (None, w1) \<Rightarrow>
               (case ACL_addLoop D d v conn (filter (\<lambda>x. x \<notin> set A) B) w1 of
                  (Some out, w2) \<Rightarrow> (out, w2)
                | (None, w2) \<Rightarrow> (Returns None, w2)))
        \<and> Logentries_Process g u h D d v conn w =
          (case Logentries_removeLoop D d v conn (filter (\<lambda>x. x \<notin> set B) A) w of
             (Some out, w1) \<Rightarrow> (out, w1)
           | (None, w1) \<Rightarrow>
               (case Logentries_addLoop g u h D d v conn (filter (\<lambda>x. x \<notin> set A) B) w1 of
                  (Some out, w2) \<Rightarrow> (out, w2)
                | (None, w2) \<Rightarrow> (Returns None, w2))))
   \<and> (d_GetChange D d (GetKey h) = (Some A, Some A) \<longrightarrow>
        ACL_Process h D d v conn w = (Returns None, w)
        \<and> Logentries_Process g u h D d v conn w = (Returns None, w))"
proof -
  have ab: "computeDiff (Some A, Some B) = (filter (\<lambda>x. x \<notin> set B) A, filter (\<lambda>x. x \<notin> set A) B)"
    by (simp add: computeDiff_def Difference_def List_def)
  have aa: "computeDiff (Some A, Some A) = ([], [])"
    by (rule computeDiff_same)
  have 1: "set (fst (computeDiff (Some A, Some B))) = set A - set B"
    and 2: "set (snd (computeDiff (Some A, Some B))) = set B - set A"
    by (rule computeDiff_sets)+
  have 4: "d_GetChange D d (GetKey h) = (Some A, Some B) \<longrightarrow>
        ACL_Process h D d v conn w =
          (case ACL_removeLoop D d v conn (filter (\<lambda>x. x \<notin> set B) A) w of
             (Some out, w1) \<Rightarrow> (out, w1)
           | (None, w1) \<Rightarrow>
               (case ACL_addLoop D d v conn (filter (\<lambda>x. x \<notin> set A) B) w1 of
                  (Some out, w2) \<Rightarrow> (out, w2)
                | (None, w2) \<Rightarrow> (Returns None, w2)))
        \<and> Logentries_Process g u h D d v conn w =
          (case Logentries_removeLoop D d v conn (filter (\<lambda>x. x \<notin> set B) A) w of
             (Some out, w1) \<Rightarrow> (out, w1)
           | (None, w1) \<Rightarrow>
               (case Logentries_addLoop g u h D d v conn (filter (\<lambda>x. x \<notin> set A) B) w1 of
                  (Some out, w2) \<Rightarrow> (out, w2)
                | (None, w2) \<Rightarrow> (Returns None, w2)))"
    by (simp add: ACL_Process_def Logentries_Process_def ab)
  have 5: "d_GetChange D d (GetKey h) = (Some A, Some A) \<longrightarrow>
        ACL_Process h D d v conn w = (Returns None, w)
        \<and> Logentries_Process g u h D d v conn w = (Returns None, w)"
    by (simp add: ACL_Process_eq Logentries_Process_eq aa removeThenAdd_nothing)
  from 1 2 aa 4 5 show ?thesis by (intro conjI)
qed

theorem C1_diff_witness:
  "set (fst (computeDiff (Some [aclBlock ''a'', aclBlock ''b''],
                          Some [aclBlock ''b'', aclBlock ''c'']))) = {aclBlock ''a''}
   \<and> set (snd (computeDiff (Some [aclBlock ''a'', aclBlock ''b''],
                            Some [aclBlock ''b'', aclBlock ''c'']))) = {aclBlock ''c''}
   \<and> ACL_Process (NewServiceACL demoSM) demoD
        (demoData0\<lparr>dd_old := Some [aclBlock ''a'', aclBlock ''b''],
                   dd_new := Some [aclBlock ''a'', aclBlock ''b'']\<rparr>)
        7 demoClient (world0 [''a'', ''b''])
      = (Returns None, world0 [''a'', ''b''])
   \<and> Logentries_Process demoVLA demoUintOrDefault (NewServiceLogentries demoSM) demoD
        (demoData0\<lparr>dd_old := Some [leBlock ''a'' 1, leBlock ''b'' 2],
                   dd_new := Some [leBlock ''a'' 1, leBlock ''b'' 2]\<rparr>)
        7 demoClient (world0 [''a'', ''b''])
      = (Returns None, world0 [''a'', ''b''])"
proof -
  let ?A = "[aclBlock ''a'', aclBlock ''b'']"
  let ?L = "[leBlock ''a'' 1, leBlock ''b'' 2]"
  let ?d = "demoData0\<lparr>dd_old := Some ?A, dd_new := Some ?A\<rparr>"
  let ?e = "demoData0\<lparr>dd_old := Some ?L, dd_new := Some ?L\<rparr>"
  have 1: "d_GetChange demoD ?d (GetKey (NewServiceACL demoSM)) = (Some ?A, Some ?A)"
    by (simp add: demoD_def demoData0_def)
  have 2: "d_GetChange demoD ?e (GetKey (NewServiceLogentries demoSM)) = (Some ?L, Some ?L)"
    by (simp add: demoD_def demoData0_def)
  have s1: "set (fst (computeDiff (Some ?A, Some [aclBlock ''b'', aclBlock ''c''])))
      = {aclBlock ''a''}"
    using C1_diff [of ?A "[aclBlock ''b'', aclBlock ''c'']", THEN conjunct1]
    by (simp add: insert_Diff_if)
  have s2: "set (snd (computeDiff (Some ?A, Some [aclBlock ''b'', aclBlock ''c''])))
      = {aclBlock ''c''}"
    using C1_diff [of ?A "[aclBlock ''b'', aclBlock ''c'']", THEN conjunct2, THEN conjunct1]
    by (simp add: insert_Diff_if)
  have p1: "ACL_Process (NewServiceACL demoSM) demoD ?d 7 demoClient (world0 [''a'', ''b''])
      = (Returns None, world0 [''a'', ''b''])"
    by (rule C1_diff [of ?A ?A demoD ?d "NewServiceACL demoSM" 7 demoClient
                "world0 [''a'', ''b'']", THEN conjunct2, THEN conjunct2, THEN conjunct2,
                THEN conjunct2, THEN mp, OF 1, THEN conjunct1])
  have p2: "Logentries_Process demoVLA demoUintOrDefault (NewServiceLogentries demoSM) demoD ?e
        7 demoClient (world0 [''a'', ''b''])
      = (Returns None, world0 [''a'', ''b''])"
    by (rule C1_diff [of ?L ?L demoD ?e "NewServiceLogentries demoSM" 7 demoClient
                "world0 [''a'', ''b'']" demoVLA demoUintOrDefault, THEN conjunct2,
                THEN conjunct2, THEN conjunct2, THEN conjunct2, THEN mp, OF 2, THEN conjunct2])
  from s1 s2 p1 p2 show ?thesis by simp
qed

text \<open>
  Claim C2.  In every run of \<^verbatim>\<open>Process\<close>, of the ACL and of the Logentries handler, every
  remote delete is issued before any remote create: the calls the run adds to the log are
  the deletes for the removal list, one per block and in the order of the list, followed
  by the creates for the addition list, and a create is in the log only if every delete
  of the removal list is before it, each answered with nil or with a 404.  Every item is
  processed: the run stops short of the end of the two lists only at a fatal answer, whose
  error it returns, or at a block whose translation panics, and when it returns nil it has
  issued the delete of every block of the removal list and the create of every block of
  the addition list.
\<close>

theorem C2_deletes_before_creates:
  "(let run = ACL_Process h D d v conn w;
        ra = computeDiff (d_GetChange D d (GetKey h))
    in calls (snd run) = calls w @ issued w (snd run)
       \<and> deletes_before_creates
            (plan (ACL_deleteOpts (d_Id D d) v) DeleteACL_call (fst ra))
            (plan (ACL_createOpts (d_Id D d) v) CreateACL_call (snd ra))
            (issued w (snd run))
       \<and> run_to_end
            (plan (ACL_deleteOpts (d_Id D d) v) DeleteACL_call (fst ra)
             @ plan (ACL_createOpts (d_Id D d) v) CreateACL_call (snd ra))
            (fst run) (issued w (snd run)))
   \<and> (let run = Logentries_Process g u h D d v conn w;
            ra = computeDiff (d_GetChange D d (GetKey h))
       in calls (snd run) = calls w @ issued w (snd run)
          \<and> deletes_before_creates
               (plan (Logentries_deleteOpts (d_Id D d) v) DeleteLogentries_call (fst ra))
               (plan (Logentries_createOpts g u h (d_Id D d) v) CreateLogentries_call (snd ra))
               (issued w (snd run))
          \<and> run_to_end
               (plan (Logentries_deleteOpts (d_Id D d) v) DeleteLogentries_call (fst ra)
                @ plan (Logentries_createOpts g u h (d_Id D d) v) CreateLogentries_call
                    (snd ra))
               (fst run) (issued w (snd run)))"
proof -
  obtain remove add where ra: "computeDiff (d_GetChange D d (GetKey h)) = (remove, add)"
    by (cases "computeDiff (d_GetChange D d (GetKey h))")
  obtain r1 w1 where a: "ACL_Process h D d v conn w = (r1, w1)"
    by (cases "ACL_Process h D d v conn w")
  obtain r2 w2 where l: "Logentries_Process g u h D d v conn w = (r2, w2)"
    by (cases "Logentries_Process g u h D d v conn w")
  have "calls w1 = calls w @ issued w w1
     \<and> deletes_before_creates
          (plan (ACL_deleteOpts (d_Id D d) v) DeleteACL_call remove)
          (plan (ACL_createOpts (d_Id D d) v) CreateACL_call add) (issued w w1)"
    by (rule removeThenAdd_deletes_before_creates [OF _ _ a [unfolded ACL_Process_eq ra]])
       simp_all
  moreover have "calls w2 = calls w @ issued w w2
     \<and> deletes_before_creates
          (plan (Logentries_deleteOpts (d_Id D d) v) DeleteLogentries_call remove)
          (plan (Logentries_createOpts g u h (d_Id D d) v) CreateLogentries_call add)
          (issued w w2)"
    by (rule removeThenAdd_deletes_before_creates
              [OF _ _ l [unfolded Logentries_Process_eq ra]]) simp_all
  moreover have "run_to_end
          (plan (ACL_deleteOpts (d_Id D d) v) DeleteACL_call remove
           @ plan (ACL_createOpts (d_Id D d) v) CreateACL_call add) r1 (issued w w1)"
    by (rule removeThenAdd_run_to_end [OF _ _ a [unfolded ACL_Process_eq ra]]) simp_all
  moreover have "run_to_end
          (plan (Logentries_deleteOpts (d_Id D d) v) DeleteLogentries_call remove
           @ plan (Logentries_createOpts g u h (d_Id D d) v) CreateLogentries_call add)
          r2 (issued w w2)"
    by (rule removeThenAdd_run_to_end [OF _ _ l [unfolded Logentries_Process_eq ra]])
       simp_all
  ultimately show ?thesis by (simp add: a l ra)
qed

theorem C2_deletes_before_creates_witness:
  "issued (world0 [''k''])
     (snd (Logentries_Process demoVLA demoUintOrDefault (NewServiceLogentries demoSM) demoD
        (demoData0\<lparr>dd_old := Some [leBlock ''k'' 1], dd_new := Some [leBlock ''k'' 2]\<rparr>)
        7 demoClient (world0 [''k''])))
   = [(leDelete ''k'', None), (leCreate ''k'' 2, None)]
   \<and> deletes_before_creates [Some (leDelete ''k'')] [Some (leCreate ''k'' 2)]
        [(leDelete ''k'', None), (leCreate ''k'' 2, None)]
   \<and> run_to_end [Some (leDelete ''k''), Some (leCreate ''k'' 2)] (Returns None)
        [(leDelete ''k'', None), (leCreate ''k'' 2, None)]"
proof -
  let ?d = "demoData0\<lparr>dd_old := Some [leBlock ''k'' 1], dd_new := Some [leBlock ''k'' 2]\<rparr>"
  note c = C2_deletes_before_creates
      [of "NewServiceLogentries demoSM" demoD ?d 7 demoClient "world0 [''k'']"
          demoVLA demoUintOrDefault, THEN conjunct2,
       unfolded Let_def demo_rename_run demo_rename_plan fst_conv snd_conv demo_le_plans
         issued_world0]
  have "issued (world0 [''k''])
     (snd (Logentries_Process demoVLA demoUintOrDefault (NewServiceLogentries demoSM) demoD
        ?d 7 demoClient (world0 [''k''])))
   = [(leDelete ''k'', None), (leCreate ''k'' 2, None)]"
    by (simp add: demo_rename_run)
  with c show ?thesis by simp
qed

text \<open>
  Claim C3.  A 404 answer to a remote delete is treated as success, and the run goes on.
  A run of \<^verbatim>\<open>Process\<close> against a client comes to the same outcome, leaves the same remote
  state and issues the same calls in the same order as the run against the client whose
  deletes answer nil wherever this one answers 404.  After every delete answered 404 the
  next planned call is issued, the next removal or, the removals done, the first
  addition, unless translating that block panics; and if the delete was the last planned
  call, \<^verbatim>\<open>Process\<close> returns nil.  The run stops short of the end of the two lists only at
  a fatal answer or a panic.  An error \<^verbatim>\<open>Process\<close> returns is the answer to the last call
  it issued, and that answer is fatal: it is never the 404 of a delete.
\<close>

theorem C3_not_found_absorbed:
  "(let run = ACL_Process h D d v conn w;
        run' = ACL_Process h D d v (conn\<lparr>DeleteACL := absorb404 (DeleteACL conn)\<rparr>) w;
        ra = computeDiff (d_GetChange D d (GetKey h));
        pl = plan (ACL_deleteOpts (d_Id D d) v) DeleteACL_call (fst ra)
             @ plan (ACL_createOpts (d_Id D d) v) CreateACL_call (snd ra)
    in fst run = fst run' \<and> same_run (snd run) (snd run')
       \<and> error_from_last_call (fst run) (issued w (snd run))
       \<and> continues_after_404 pl (fst run) (issued w (snd run))
       \<and> run_to_end pl (fst run) (issued w (snd run)))
   \<and> (let run = Logentries_Process g u h D d v conn w;
            run' = Logentries_Process g u h D d v
                     (conn\<lparr>DeleteLogentries := absorb404 (DeleteLogentries conn)\<rparr>) w;
            ra = computeDiff (d_GetChange D d (GetKey h));
            pl = plan (Logentries_deleteOpts (d_Id D d) v) DeleteLogentries_call (fst ra)
                 @ plan (Logentries_createOpts g u h (d_Id D d) v) CreateLogentries_call
                     (snd ra)
       in fst run = fst run' \<and> same_run (snd run) (snd run')
          \<and> error_from_last_call (fst run) (issued w (snd run))
          \<and> continues_after_404 pl (fst run) (issued w (snd run))
          \<and> run_to_end pl (fst run) (issued w (snd run)))"
proof -
  obtain remove add where ra: "computeDiff (d_GetChange D d (GetKey h)) = (remove, add)"
    by (cases "computeDiff (d_GetChange D d (GetKey h))")
  obtain r1 w1 where a: "ACL_Process h D d v conn w = (r1, w1)"
    by (cases "ACL_Process h D d v conn w")
  obtain r2 w2 where l: "Logentries_Process g u h D d v conn w = (r2, w2)"
    by (cases "Logentries_Process g u h D d v conn w")
  have e1: "error_from_last_call r1 (issued w w1)"
    using removeThenAdd_stops [OF _ _ a [unfolded ACL_Process_eq ra]] by simp
  have e2: "error_from_last_call r2 (issued w w2)"
    using removeThenAdd_stops [OF _ _ l [unfolded Logentries_Process_eq ra]] by simp
  have p1: "run_to_end
          (plan (ACL_deleteOpts (d_Id D d) v) DeleteACL_call remove
           @ plan (ACL_createOpts (d_Id D d) v) CreateACL_call add) r1 (issued w w1)"
    by (rule removeThenAdd_run_to_end [OF _ _ a [unfolded ACL_Process_eq ra]]) simp_all
  have p2: "run_to_end
          (plan (Logentries_deleteOpts (d_Id D d) v) DeleteLogentries_call remove
           @ plan (Logentries_createOpts g u h (d_Id D d) v) CreateLogentries_call add)
          r2 (issued w w2)"
    by (rule removeThenAdd_run_to_end [OF _ _ l [unfolded Logentries_Process_eq ra]])
       simp_all
  note c1 = run_to_end_continues [OF p1] and c2 = run_to_end_continues [OF p2]
  have s1: "fst (ACL_Process h D d v conn w)
        = fst (ACL_Process h D d v (conn\<lparr>DeleteACL := absorb404 (DeleteACL conn)\<rparr>) w)
      \<and> same_run (snd (ACL_Process h D d v conn w))
          (snd (ACL_Process h D d v (conn\<lparr>DeleteACL := absorb404 (DeleteACL conn)\<rparr>) w))"
    unfolding ACL_Process_eq using removeThenAdd_absorb404 by simp
  have s2: "fst (Logentries_Process g u h D d v conn w)
        = fst (Logentries_Process g u h D d v
                 (conn\<lparr>DeleteLogentries := absorb404 (DeleteLogentries conn)\<rparr>) w)
      \<and> same_run (snd (Logentries_Process g u h D d v conn w))
          (snd (Logentries_Process g u h D d v
                 (conn\<lparr>DeleteLogentries := absorb404 (DeleteLogentries conn)\<rparr>) w))"
    unfolding Logentries_Process_eq using removeThenAdd_absorb404 by simp
  show ?thesis
    unfolding Let_def using s1 s2 e1 e2 p1 p2 c1 c2 by (simp add: a l ra)
qed

theorem C3_not_found_absorbed_witness:
  "fst (ACL_Process (NewServiceACL demoSM) demoD
          (demoData0\<lparr>dd_old := Some [aclBlock ''x'', aclBlock ''b''],
                     dd_new := Some [aclBlock ''c'']\<rparr>)
          7 (demoClient\<lparr>DeleteACL := absorb404 (DeleteACL demoClient)\<rparr>) (world0 [''b'']))
     = Returns None
   \<and> same_run
        \<lparr>remote = [''c''],
         calls = [(aclDelete ''x'', Some (HTTPError 404)), (aclDelete ''b'', None),
                  (aclCreate ''c'', None)],
         logs =
           [(''[DEBUG] Fastly ACL removal opts: %#v'', [ArgInput (aclDelete ''x'')]),
            (''[DEBUG] Fastly ACL removal opts: %#v'', [ArgInput (aclDelete ''b'')]),
            (''[DEBUG] Fastly ACL creation opts: %#v'', [ArgInput (aclCreate ''c'')])]\<rparr>
        (snd (ACL_Process (NewServiceACL demoSM) demoD
          (demoData0\<lparr>dd_old := Some [aclBlock ''x'', aclBlock ''b''],
                     dd_new := Some [aclBlock ''c'']\<rparr>)
          7 (demoClient\<lparr>DeleteACL := absorb404 (DeleteACL demoClient)\<rparr>) (world0 [''b''])))
   \<and> error_from_last_call (Returns None)
        [(aclDelete ''x'', Some (HTTPError 404)), (aclDelete ''b'', None),
         (aclCreate ''c'', None)]
   \<and> continues_after_404
        [Some (aclDelete ''x''), Some (aclDelete ''b''), Some (aclCreate ''c'')]
        (Returns None)
        [(aclDelete ''x'', Some (HTTPError 404)), (aclDelete ''b'', None),
         (aclCreate ''c'', None)]
   \<and> run_to_end
        [Some (aclDelete ''x''), Some (aclDelete ''b''), Some (aclCreate ''c'')]
        (Returns None)
        [(aclDelete ''x'', Some (HTTPError 404)), (aclDelete ''b'', None),
         (aclCreate ''c'', None)]"
proof -
  let ?run' = "ACL_Process (NewServiceACL demoSM) demoD
          (demoData0\<lparr>dd_old := Some [aclBlock ''x'', aclBlock ''b''],
                     dd_new := Some [aclBlock ''c'']\<rparr>)
          7 (demoClient\<lparr>DeleteACL := absorb404 (DeleteACL demoClient)\<rparr>) (world0 [''b''])"
  note c = C3_not_found_absorbed
    [of "NewServiceACL demoSM" demoD
        "demoData0\<lparr>dd_old := Some [aclBlock ''x'', aclBlock ''b''],
                   dd_new := Some [aclBlock ''c'']\<rparr>"
        7 demoClient "world0 [''b'']", THEN conjunct1,
     unfolded Let_def demo_not_found_run demo_not_found_plan demo_acl_plans
       fst_conv snd_conv issued_world0]
  from c have "Returns None = fst ?run'" by (rule conjunct1)
  then have "fst ?run' = Returns None" by (rule sym)
  with c show ?thesis by simp
qed

text \<open>
  Claim C4.  A remote delete that fails with anything but a 404, and a remote create that
  fails with any error, ends the run: its answer is the last entry the run adds to the
  call log, so no call is issued for a remaining item and nothing is rolled back, and
  \<^verbatim>\<open>Process\<close> returns the very error of that answer.
\<close>

theorem C4_fatal_short_circuit:
  "(let run = ACL_Process h D d v conn w
    in calls (snd run) = calls w @ issued w (snd run)
       \<and> stops_at_fatal (fst run) (issued w (snd run)))
   \<and> (let run = Logentries_Process g u h D d v conn w
       in calls (snd run) = calls w @ issued w (snd run)
          \<and> stops_at_fatal (fst run) (issued w (snd run)))"
proof -
  obtain remove add where ra: "computeDiff (d_GetChange D d (GetKey h)) = (remove, add)"
    by (cases "computeDiff (d_GetChange D d (GetKey h))")
  obtain r1 w1 where a: "ACL_Process h D d v conn w = (r1, w1)"
    by (cases "ACL_Process h D d v conn w")
  obtain r2 w2 where l: "Logentries_Process g u h D d v conn w = (r2, w2)"
    by (cases "Logentries_Process g u h D d v conn w")
  have "stops_at_fatal r1 (issued w w1)"
    using removeThenAdd_stops [OF _ _ a [unfolded ACL_Process_eq ra]] by simp
  moreover have "stops_at_fatal r2 (issued w w2)"
    using removeThenAdd_stops [OF _ _ l [unfolded Logentries_Process_eq ra]] by simp
  moreover have "calls w1 = calls w @ issued w w1"
    using removeThenAdd_deletes_before_creates [OF _ _ a [unfolded ACL_Process_eq ra]]
    by simp
  moreover have "calls w2 = calls w @ issued w w2"
    using removeThenAdd_deletes_before_creates [OF _ _ l [unfolded Logentries_Process_eq ra]]
    by simp
  ultimately show ?thesis by (simp add: a l)
qed

theorem C4_fatal_short_circuit_witness:
  "stops_at_fatal (Returns (Some (HTTPError 409)))
     [(aclCreate ''a'', None), (aclCreate ''b'', Some (HTTPError 409))]
   \<and> stops_at_fatal (Returns (Some (HTTPError 500)))
     [(aclDelete ''a'', None), (aclDelete ''locked'', Some (HTTPError 500))]"
  using C4_fatal_short_circuit
    [of "NewServiceACL demoSM" demoD
        "demoData0\<lparr>dd_new := Some [aclBlock ''a'', aclBlock ''b'', aclBlock ''c'']\<rparr>"
        7 demoClient "world0 [''b'']", THEN conjunct1]
    C4_fatal_short_circuit
    [of "NewServiceACL demoSM" demoD
        "demoData0\<lparr>dd_old := Some [aclBlock ''a'', aclBlock ''locked'', aclBlock ''b''],
                   dd_new := Some [aclBlock ''c'']\<rparr>"
        7 demoClient "world0 [''a'', ''locked'', ''b'']", THEN conjunct1]
  by (simp add: demo_second_create_fails_run demo_delete_fails_run Let_def)

text \<open>
  Claim C5, as the code has it.  The write paths of the ACL and of the Logentries handler
  issue remote delete and create calls only, and they issue all of them: a run that
  returns nil has issued the delete of every block of the removal list and the create of
  every block of the addition list.  The write path of the package handler issues
  neither a delete nor a create: when a package block is declared it makes exactly one
  call, an \<^verbatim>\<open>UpdatePackage\<close> carrying the declared file name, and when none is declared
  it makes no call and returns nil.
\<close>

theorem C5_delete_create_or_update:
  "list_all (\<lambda>x. isDeleteCall (fst x) \<or> isCreateCall (fst x))
     (issued w (snd (ACL_Process h D d v conn w)))
   \<and> list_all (\<lambda>x. isDeleteCall (fst x) \<or> isCreateCall (fst x))
     (issued w (snd (Logentries_Process g u h D d v conn w)))
   \<and> (issued w (snd (Package_Process h D d v conn w)) = [] \<or>
      (\<exists>b rest fn.
         d_GetOk D d (GetKey h) = (b # rest, True) \<and> b ''filename'' = Some (VString fn)
         \<and> map fst (issued w (snd (Package_Process h D d v conn w)))
             = [UpdatePackage_call
                  \<lparr>UpdatePackageInput.ServiceID = d_Id D d,
                   UpdatePackageInput.ServiceVersion = v,
                   UpdatePackageInput.PackagePath = fn\<rparr>]))
   \<and> (d_GetOk D d (GetKey h) = (blk # others, True) \<and> blk ''filename'' = Some (VString name)
      \<longrightarrow> issued w (snd (Package_Process h D d v conn w))
          = [(UpdatePackage_call
                \<lparr>UpdatePackageInput.ServiceID = d_Id D d,
                 UpdatePackageInput.ServiceVersion = v,
                 UpdatePackageInput.PackagePath = name\<rparr>,
              errOf (fst (UpdatePackage conn
                \<lparr>UpdatePackageInput.ServiceID = d_Id D d,
                 UpdatePackageInput.ServiceVersion = v,
                 UpdatePackageInput.PackagePath = name\<rparr> (remote w))))])
   \<and> (snd (d_GetOk D d (GetKey h)) = False
      \<longrightarrow> Package_Process h D d v conn w = (Returns None, w))
   \<and> list_all (\<lambda>x. \<not> isDeleteCall (fst x) \<and> \<not> isCreateCall (fst x))
        (issued w (snd (Package_Process h D d v conn w)))
   \<and> (let ra = computeDiff (d_GetChange D d (GetKey h));
           run = ACL_Process h D d v conn w
       in run_to_end
            (plan (ACL_deleteOpts (d_Id D d) v) DeleteACL_call (fst ra)
             @ plan (ACL_createOpts (d_Id D d) v) CreateACL_call (snd ra))
            (fst run) (issued w (snd run)))
   \<and> (let ra = computeDiff (d_GetChange D d (GetKey h));
           run = Logentries_Process g u h D d v conn w
       in run_to_end
            (plan (Logentries_deleteOpts (d_Id D d) v) DeleteLogentries_call (fst ra)
             @ plan (Logentries_createOpts g u h (d_Id D d) v) CreateLogentries_call (snd ra))
            (fst run) (issued w (snd run)))"
proof -
  obtain remove add where ra: "computeDiff (d_GetChange D d (GetKey h)) = (remove, add)"
    by (cases "computeDiff (d_GetChange D d (GetKey h))")
  obtain r1 w1 where a: "ACL_Process h D d v conn w = (r1, w1)"
    by (cases "ACL_Process h D d v conn w")
  obtain r2 w2 where l: "Logentries_Process g u h D d v conn w = (r2, w2)"
    by (cases "Logentries_Process g u h D d v conn w")
  have 1: "list_all (\<lambda>x. isDeleteCall (fst x) \<or> isCreateCall (fst x))
     (issued w (snd (ACL_Process h D d v conn w)))"
    unfolding a snd_conv
    by (rule removeThenAdd_only_deletes_and_creates [OF _ _ a [unfolded ACL_Process_eq ra]])
       simp_all
  have 2: "list_all (\<lambda>x. isDeleteCall (fst x) \<or> isCreateCall (fst x))
     (issued w (snd (Logentries_Process g u h D d v conn w)))"
    unfolding l snd_conv
    by (rule removeThenAdd_only_deletes_and_creates
              [OF _ _ l [unfolded Logentries_Process_eq ra]]) simp_all
  note 3 = Package_Process_calls [of w h D d v conn]
  have 4: "d_GetOk D d (GetKey h) = (blk # others, True) \<and> blk ''filename'' = Some (VString name)
      \<longrightarrow> issued w (snd (Package_Process h D d v conn w))
          = [(UpdatePackage_call
                \<lparr>UpdatePackageInput.ServiceID = d_Id D d,
                 UpdatePackageInput.ServiceVersion = v,
                 UpdatePackageInput.PackagePath = name\<rparr>,
              errOf (fst (UpdatePackage conn
                \<lparr>UpdatePackageInput.ServiceID = d_Id D d,
                 UpdatePackageInput.ServiceVersion = v,
                 UpdatePackageInput.PackagePath = name\<rparr> (remote w))))]"
    using Package_Process_declared [of D d h blk others name w v conn] by blast
  have 5: "snd (d_GetOk D d (GetKey h)) = False
      \<longrightarrow> Package_Process h D d v conn w = (Returns None, w)"
    using Package_Process_not_declared [of D d h v conn w] by blast
  note 6 = Package_Process_no_delete_create [of w h D d v conn]
  have 7: "let ra = computeDiff (d_GetChange D d (GetKey h));
           run = ACL_Process h D d v conn w
       in run_to_end
            (plan (ACL_deleteOpts (d_Id D d) v) DeleteACL_call (fst ra)
             @ plan (ACL_createOpts (d_Id D d) v) CreateACL_call (snd ra))
            (fst run) (issued w (snd run))"
    unfolding Let_def a ra fst_conv snd_conv
    by (rule removeThenAdd_run_to_end [OF _ _ a [unfolded ACL_Process_eq ra]]) simp_all
  have 8: "let ra = computeDiff (d_GetChange D d (GetKey h));
           run = Logentries_Process g u h D d v conn w
       in run_to_end
            (plan (Logentries_deleteOpts (d_Id D d) v) DeleteLogentries_call (fst ra)
             @ plan (Logentries_createOpts g u h (d_Id D d) v) CreateLogentries_call (snd ra))
            (fst run) (issued w (snd run))"
    unfolding Let_def l ra fst_conv snd_conv
    by (rule removeThenAdd_run_to_end [OF _ _ l [unfolded Logentries_Process_eq ra]])
       simp_all
  from 1 2 3 4 5 6 7 8 show ?thesis by (intro conjI)
qed

theorem C5_delete_create_or_update_witness:
  "issued (world0 [])
     (snd (Package_Process (NewServicePackage demoSM) demoD
        (demoData0\<lparr>dd_package := [pkgBlock ''pkg.tar.gz'']\<rparr>) 7 demoClient (world0 [])))
   = [(pkgUpdate ''pkg.tar.gz'', None)]
   \<and> Package_Process (NewServicePackage demoSM) demoD demoData0 7 demoClient (world0 [])
     = (Returns None, world0 [])
   \<and> list_all (\<lambda>x. isDeleteCall (fst x) \<or> isCreateCall (fst x))
        [(aclDelete ''x'', Some (HTTPError 404)), (aclDelete ''b'', None),
         (aclCreate ''c'', None)]
   \<and> run_to_end
        [Some (aclDelete ''x''), Some (aclDelete ''b''), Some (aclCreate ''c'')]
        (Returns None)
        [(aclDelete ''x'', Some (HTTPError 404)), (aclDelete ''b'', None),
         (aclCreate ''c'', None)]"
proof -
  let ?d = "demoData0\<lparr>dd_package := [pkgBlock ''pkg.tar.gz'']\<rparr>"
  let ?a = "demoData0\<lparr>dd_old := Some [aclBlock ''x'', aclBlock ''b''],
                     dd_new := Some [aclBlock ''c'']\<rparr>"
  have g: "d_GetOk demoD ?d (GetKey (NewServicePackage demoSM))
        = (pkgBlock ''pkg.tar.gz'' # [], True)
      \<and> pkgBlock ''pkg.tar.gz'' ''filename'' = Some (VString ''pkg.tar.gz'')"
    by (simp add: demo_defs)
  have u: "errOf (fst (UpdatePackage demoClient
                \<lparr>UpdatePackageInput.ServiceID = d_Id demoD ?d,
                 UpdatePackageInput.ServiceVersion = 7,
                 UpdatePackageInput.PackagePath = ''pkg.tar.gz''\<rparr> (remote (world0 []))))
      = None"
    "UpdatePackage_call
                \<lparr>UpdatePackageInput.ServiceID = d_Id demoD ?d,
                 UpdatePackageInput.ServiceVersion = 7,
                 UpdatePackageInput.PackagePath = ''pkg.tar.gz''\<rparr> = pkgUpdate ''pkg.tar.gz''"
    by (simp_all add: demo_defs pkgUpdate_def)
  note c = C5_delete_create_or_update
  have 1: "issued (world0 [])
     (snd (Package_Process (NewServicePackage demoSM) demoD ?d 7 demoClient (world0 [])))
   = [(pkgUpdate ''pkg.tar.gz'', None)]"
    using c [of "world0 []" "NewServicePackage demoSM" demoD ?d 7 demoClient _ _
               "pkgBlock ''pkg.tar.gz''" "[]" "''pkg.tar.gz''",
             THEN conjunct2, THEN conjunct2, THEN conjunct2, THEN conjunct1, THEN mp, OF g]
    unfolding u .
  have 2: "Package_Process (NewServicePackage demoSM) demoD demoData0 7 demoClient (world0 [])
     = (Returns None, world0 [])"
    by (rule c [of "world0 []" "NewServicePackage demoSM" demoD demoData0 7 demoClient,
             THEN conjunct2, THEN conjunct2, THEN conjunct2, THEN conjunct2, THEN conjunct1,
             THEN mp, OF demo_no_package_run])
  have 3: "list_all (\<lambda>x. isDeleteCall (fst x) \<or> isCreateCall (fst x))
        [(aclDelete ''x'', Some (HTTPError 404)), (aclDelete ''b'', None),
         (aclCreate ''c'', None)]"
    using c [of "world0 [''b'']" "NewServiceACL demoSM" demoD ?a 7 demoClient,
             THEN conjunct1]
    by (simp add: demo_not_found_run)
  have 4: "run_to_end
        [Some (aclDelete ''x''), Some (aclDelete ''b''), Some (aclCreate ''c'')]
        (Returns None)
        [(aclDelete ''x'', Some (HTTPError 404)), (aclDelete ''b'', None),
         (aclCreate ''c'', None)]"
    using c [of "world0 [''b'']" "NewServiceACL demoSM" demoD ?a 7 demoClient,
             THEN conjunct2, THEN conjunct2, THEN conjunct2, THEN conjunct2, THEN conjunct2,
             THEN conjunct2, THEN conjunct1,
             unfolded Let_def demo_not_found_run demo_not_found_plan demo_acl_plans
               fst_conv snd_conv issued_world0]
    by simp
  from 1 2 3 4 show ?thesis by (intro conjI)
qed

text \<open>
  The claim as the specification states it fails on the package handler: with a package
  block declared, its write path issues one call, an \<^verbatim>\<open>UpdatePackage\<close>, which is neither
  a delete nor a create.
\<close>

theorem C5_counterexample:
  "map fst (calls (snd (Package_Process (NewServicePackage demoSM) demoD
      (demoData0\<lparr>dd_package := [pkgBlock ''pkg.tar.gz'']\<rparr>) 7 demoClient (world0 []))))
     = [pkgUpdate ''pkg.tar.gz'']
   \<and> \<not> isDeleteCall (pkgUpdate ''pkg.tar.gz'')
   \<and> \<not> isCreateCall (pkgUpdate ''pkg.tar.gz'')"
  by (simp add: demo_package_run pkgUpdate_def)

text \<open>
  Claim C6.  For every list of remote entities the normalizer yields one mapping per
  entity, in order, which is the entity's field mapping without exactly the fields whose
  value is the empty string; this holds for whatever order the pruning loop visits the
  keys in.  The fields of non-string type (\<open>port\<close>, \<open>use_tls\<close>, \<open>format_version\<close>) are
  never pruned: they are present with the entity's value, zero and false included.  A
  string field is absent when the entity's string is empty and present with it otherwise.
\<close>

theorem C6_prunes_empty_strings:
  "flattenLogentries les =
     map (\<lambda>le k. if LEMapString le k = Some (VString []) then None else LEMapString le k) les
   \<and> flattenACLs acls =
     map (\<lambda>acl k. if vclMap acl k = Some (VString []) then None else vclMap acl k) acls
   \<and> (set ks = dom m \<longrightarrow>
        pruneEmpty ks m = (\<lambda>k. if m k = Some (VString []) then None else m k))
   \<and> map (\<lambda>b. (b ''port'', b ''use_tls'', b ''format_version'')) (flattenLogentries les) =
     map (\<lambda>le. (Some (VUint (Logentries.Port le)), Some (VBool (Logentries.UseTLS le)),
                 Some (VUint (Logentries.FormatVersion le)))) les
   \<and> map (\<lambda>b. (b ''name'', b ''format'')) (flattenLogentries les) =
     map (\<lambda>le. (if Logentries.Name le = [] then None else Some (VString (Logentries.Name le)),
                 if Logentries.Format le = [] then None
                 else Some (VString (Logentries.Format le)))) les"
proof -
  have 3: "set ks = dom m \<longrightarrow>
        pruneEmpty ks m = (\<lambda>k. if m k = Some (VString []) then None else m k)"
    by (simp add: pruneEmpty_dom)
  have 4: "map (\<lambda>b. (b ''port'', b ''use_tls'', b ''format_version'')) (flattenLogentries les) =
     map (\<lambda>le. (Some (VUint (Logentries.Port le)), Some (VBool (Logentries.UseTLS le)),
                 Some (VUint (Logentries.FormatVersion le)))) les"
    unfolding flattenLogentries_map by (simp add: LEMapString_def)
  have 5: "map (\<lambda>b. (b ''name'', b ''format'')) (flattenLogentries les) =
     map (\<lambda>le. (if Logentries.Name le = [] then None else Some (VString (Logentries.Name le)),
                 if Logentries.Format le = [] then None
                 else Some (VString (Logentries.Format le)))) les"
    unfolding flattenLogentries_map by (simp add: LEMapString_def)
  from flattenLogentries_map flattenACLs_map 3 4 5 show ?thesis by (intro conjI)
qed

theorem C6_prunes_empty_strings_witness:
  "map (\<lambda>b. (b ''name'', b ''format'')) (flattenLogentries [demoLogentries ''a''])
     = [(Some (VString ''a''), None)]
   \<and> map (\<lambda>b. (b ''port'', b ''use_tls'', b ''format_version''))
        (flattenLogentries [demoLogentries ''a''])
     = [(Some (VUint 0), Some (VBool False), Some (VUint 0))]
   \<and> flattenACLs [\<lparr>ACL.ID = [], ACL.Name = ''a''\<rparr>] = [[''name'' \<mapsto> VString ''a'']]
   \<and> pruneEmpty [''name'', ''acl_id''] (vclMap \<lparr>ACL.ID = [], ACL.Name = ''a''\<rparr>)
     = [''name'' \<mapsto> VString ''a'']"
proof -
  note c = C6_prunes_empty_strings
    [of "[demoLogentries ''a'']" "[\<lparr>ACL.ID = [], ACL.Name = ''a''\<rparr>]"
        "[''name'', ''acl_id'']" "vclMap \<lparr>ACL.ID = [], ACL.Name = ''a''\<rparr>"]
  have d: "set [''name'', ''acl_id''] = dom (vclMap \<lparr>ACL.ID = [], ACL.Name = ''a''\<rparr>)"
    by (auto simp: dom_vclMap)
  have 1: "map (\<lambda>b. (b ''name'', b ''format'')) (flattenLogentries [demoLogentries ''a''])
     = [(Some (VString ''a''), None)]"
    using c [THEN conjunct2, THEN conjunct2, THEN conjunct2, THEN conjunct2]
    by (simp add: demoLogentries_def)
  have 2: "map (\<lambda>b. (b ''port'', b ''use_tls'', b ''format_version''))
        (flattenLogentries [demoLogentries ''a''])
     = [(Some (VUint 0), Some (VBool False), Some (VUint 0))]"
    using c [THEN conjunct2, THEN conjunct2, THEN conjunct2, THEN conjunct1]
    by (simp add: demoLogentries_def)
  have 3: "flattenACLs [\<lparr>ACL.ID = [], ACL.Name = ''a''\<rparr>] = [[''name'' \<mapsto> VString ''a'']]"
    using c [THEN conjunct2, THEN conjunct1]
    by (auto simp: vclMap_def fun_eq_iff)
  have 4: "pruneEmpty [''name'', ''acl_id''] (vclMap \<lparr>ACL.ID = [], ACL.Name = ''a''\<rparr>)
     = [''name'' \<mapsto> VString ''a'']"
    using c [THEN conjunct2, THEN conjunct2, THEN conjunct1, THEN mp, OF d]
    by (auto simp: vclMap_def fun_eq_iff)
  from 1 2 3 4 show ?thesis by (intro conjI)
qed

text \<open>
  Claim C7.  A nil old or new collection is read as the empty set: the differences are
  those of the empty set, \<^verbatim>\<open>Process\<close> on resource data whose change has a nil side does
  what it does on resource data with the empty set in its place, and with both sides nil
  it returns nil without a remote call.  Nil is never an error.
\<close>

theorem C7_nil_is_empty:
  "computeDiff (None, new) = computeDiff (Some new_Set, new)
   \<and> computeDiff (old, None) = computeDiff (old, Some new_Set)
   \<and> (d_Id D' d' = d_Id D d
        \<and> d_GetChange D' d' (GetKey h) = map_prod orEmpty orEmpty (d_GetChange D d (GetKey h))
      \<longrightarrow> ACL_Process h D' d' v conn w = ACL_Process h D d v conn w
          \<and> Logentries_Process g u h D' d' v conn w = Logentries_Process g u h D d v conn w)
   \<and> (d_GetChange D d (GetKey h) = (None, None)
      \<longrightarrow> ACL_Process h D d v conn w = (Returns None, w)
          \<and> Logentries_Process g u h D d v conn w = (Returns None, w))"
proof -
  have 1: "computeDiff (None, new) = computeDiff (Some new_Set, new)"
    and 2: "computeDiff (old, None) = computeDiff (old, Some new_Set)"
    by (simp_all add: computeDiff_def)
  have o: "computeDiff (map_prod orEmpty orEmpty ch) = computeDiff ch" for ch
    by (cases ch) (simp add: computeDiff_def orEmpty_def split: option.splits)
  have 3: "d_Id D' d' = d_Id D d
        \<and> d_GetChange D' d' (GetKey h) = map_prod orEmpty orEmpty (d_GetChange D d (GetKey h))
      \<longrightarrow> ACL_Process h D' d' v conn w = ACL_Process h D d v conn w
          \<and> Logentries_Process g u h D' d' v conn w = Logentries_Process g u h D d v conn w"
    by (simp add: ACL_Process_eq Logentries_Process_eq o)
  have n: "computeDiff (None, None) = ([], [])"
    by (simp add: computeDiff_def Difference_def List_def new_Set_def)
  have 4: "d_GetChange D d (GetKey h) = (None, None)
      \<longrightarrow> ACL_Process h D d v conn w = (Returns None, w)
          \<and> Logentries_Process g u h D d v conn w = (Returns None, w)"
    by (simp add: ACL_Process_eq Logentries_Process_eq n removeThenAdd_nothing)
  from 1 2 3 4 show ?thesis by (intro conjI)
qed

theorem C7_nil_is_empty_witness:
  "ACL_Process (NewServiceACL demoSM) demoD
     (demoData0\<lparr>dd_old := Some [], dd_new := Some [aclBlock ''c'']\<rparr>)
     7 demoClient (world0 [])
   = (Returns None,
      \<lparr>remote = [''c''], calls = [(aclCreate ''c'', None)],
       logs = [(''[DEBUG] Fastly ACL creation opts: %#v'', [ArgInput (aclCreate ''c'')])]\<rparr>)
   \<and> ACL_Process (NewServiceACL demoSM) demoD demoData0 7 demoClient (world0 [''a''])
       = (Returns None, world0 [''a''])"
proof -
  let ?h = "NewServiceACL demoSM"
  let ?d = "demoData0\<lparr>dd_new := Some [aclBlock ''c'']\<rparr>"
  let ?d' = "demoData0\<lparr>dd_old := Some [], dd_new := Some [aclBlock ''c'']\<rparr>"
  have 1: "d_Id demoD ?d' = d_Id demoD ?d
       \<and> d_GetChange demoD ?d' (GetKey ?h)
           = map_prod orEmpty orEmpty (d_GetChange demoD ?d (GetKey ?h))"
    by (simp add: demoD_def demoData0_def orEmpty_def new_Set_def)
  have 2: "d_GetChange demoD demoData0 (GetKey ?h) = (None, None)"
    by (simp add: demoD_def demoData0_def)
  have "ACL_Process ?h demoD ?d' 7 demoClient (world0 [])
      = ACL_Process ?h demoD ?d 7 demoClient (world0 [])"
    by (rule C7_nil_is_empty [of _ _ demoD ?d' demoD ?d ?h, THEN conjunct2, THEN conjunct2,
              THEN conjunct1, THEN mp, OF 1, THEN conjunct1])
  moreover have "ACL_Process ?h demoD demoData0 7 demoClient (world0 [''a''])
      = (Returns None, world0 [''a''])"
    by (rule C7_nil_is_empty [of _ _ demoD demoData0 demoD demoData0 ?h, THEN conjunct2,
              THEN conjunct2, THEN conjunct2, THEN mp, OF 2, THEN conjunct1])
  ultimately show ?thesis by (simp add: demo_nil_old_run)
qed

text \<open>
  Claim C8.  When the remote list (for the package handler, get) succeeds and storing the
  normalized result with \<^verbatim>\<open>d.Set\<close> fails, \<^verbatim>\<open>Read\<close> writes a \<^verbatim>\<open>[WARN]\<close> line carrying the
  error to the log and returns nil: the failure of the store is not propagated.  In the
  package handler this is so whenever the declared file name read back from the resource
  data is a string, as its schema makes it.
\<close>

theorem C8_store_failure_logged:
  "(ListACLs conn \<lparr>ListACLsInput.ServiceID = d_Id D d,
                   ListACLsInput.ServiceVersion = Number (ActiveVersion s)\<rparr> (remote w)
      = (Inr aclList, st)
    \<and> d_Set D d (GetKey h) (flattenACLs aclList) = (Some err, d')
    \<longrightarrow> fst (ACL_Read h D d s conn w) = Returns None
        \<and> fst (snd (ACL_Read h D d s conn w)) = d'
        \<and> logs (snd (snd (ACL_Read h D d s conn w)))
            = logs w @ [(''[DEBUG] Refreshing ACLs for (%s)'', [ArgString (d_Id D d)]),
                        (''[WARN] Error setting ACLs for (%s): %s'',
                         [ArgString (d_Id D d'), ArgError err])])
   \<and> (ListLogentries conn \<lparr>ListLogentriesInput.ServiceID = d_Id D d,
                            ListLogentriesInput.ServiceVersion = Number (ActiveVersion s)\<rparr>
         (remote w) = (Inr logentriesList, st)
       \<and> d_Set D d (GetKey h) (flattenLogentries logentriesList) = (Some err, d')
       \<longrightarrow> fst (Logentries_Read h D d s conn w) = Returns None
           \<and> fst (snd (Logentries_Read h D d s conn w)) = d'
           \<and> logs (snd (snd (Logentries_Read h D d s conn w)))
               = logs w @ [(''[DEBUG] Refreshing Logentries for (%s)'', [ArgString (d_Id D d)]),
                           (''[WARN] Error setting Logentries for (%s): %s'',
                            [ArgString (d_Id D d'), ArgError err])])
   \<and> (GetPackage conn \<lparr>GetPackageInput.ServiceID = d_Id D d,
                        GetPackageInput.ServiceVersion = Number (ActiveVersion s)\<rparr>
         (remote w) = (Inr P, st)
       \<and> d_Get D d ''package.0.filename'' = Some (VString filename)
       \<and> d_Set D d (GetKey h) (flattenPackage P filename) = (Some err, d')
       \<longrightarrow> fst (Package_Read h D d s conn w) = Returns None
           \<and> fst (snd (Package_Read h D d s conn w)) = d'
           \<and> logs (snd (snd (Package_Read h D d s conn w)))
               = logs w @ [(''[DEBUG] Refreshing package for (%s)'', [ArgString (d_Id D d)]),
                           (''[WARN] Error setting Package for (%s): %s'',
                            [ArgString (d_Id D d'), ArgError err])])"
proof (intro conjI impI)
  assume "ListACLs conn \<lparr>ListACLsInput.ServiceID = d_Id D d,
                   ListACLsInput.ServiceVersion = Number (ActiveVersion s)\<rparr> (remote w)
      = (Inr aclList, st)
    \<and> d_Set D d (GetKey h) (flattenACLs aclList) = (Some err, d')"
  then have r: "ACL_Read h D d s conn w =
      (Returns None, d',
       log_Printf ''[WARN] Error setting ACLs for (%s): %s''
         [ArgString (d_Id D d'), ArgError err]
         (snd (invokeR ListACLs_call (ListACLs conn)
             \<lparr>ListACLsInput.ServiceID = d_Id D d,
              ListACLsInput.ServiceVersion = Number (ActiveVersion s)\<rparr>
             (log_Printf ''[DEBUG] Refreshing ACLs for (%s)'' [ArgString (d_Id D d)] w))))"
    by (simp add: ACL_Read_def invokeR_def log_Printf_def)
  show "fst (ACL_Read h D d s conn w) = Returns None"
    and "fst (snd (ACL_Read h D d s conn w)) = d'"
    and "logs (snd (snd (ACL_Read h D d s conn w)))
            = logs w @ [(''[DEBUG] Refreshing ACLs for (%s)'', [ArgString (d_Id D d)]),
                        (''[WARN] Error setting ACLs for (%s): %s'',
                         [ArgString (d_Id D d'), ArgError err])]"
    unfolding r by (simp_all add: invokeR_def log_Printf_def split: prod.splits)
next
  assume "ListLogentries conn \<lparr>ListLogentriesInput.ServiceID = d_Id D d,
                            ListLogentriesInput.ServiceVersion = Number (ActiveVersion s)\<rparr>
         (remote w) = (Inr logentriesList, st)
       \<and> d_Set D d (GetKey h) (flattenLogentries logentriesList) = (Some err, d')"
  then have r: "Logentries_Read h D d s conn w =
      (Returns None, d',
       log_Printf ''[WARN] Error setting Logentries for (%s): %s''
         [ArgString (d_Id D d'), ArgError err]
         (snd (invokeR ListLogentries_call (ListLogentries conn)
             \<lparr>ListLogentriesInput.ServiceID = d_Id D d,
              ListLogentriesInput.ServiceVersion = Number (ActiveVersion s)\<rparr>
             (log_Printf ''[DEBUG] Refreshing Logentries for (%s)'' [ArgString (d_Id D d)] w))))"
    by (simp add: Logentries_Read_def invokeR_def log_Printf_def)
  show "fst (Logentries_Read h D d s conn w) = Returns None"
    and "fst (snd (Logentries_Read h D d s conn w)) = d'"
    and "logs (snd (snd (Logentries_Read h D d s conn w)))
               = logs w @ [(''[DEBUG] Refreshing Logentries for (%s)'', [ArgString (d_Id D d)]),
                           (''[WARN] Error setting Logentries for (%s): %s'',
                            [ArgString (d_Id D d'), ArgError err])]"
    unfolding r by (simp_all add: invokeR_def log_Printf_def split: prod.splits)
next
  assume "GetPackage conn \<lparr>GetPackageInput.ServiceID = d_Id D d,
                        GetPackageInput.ServiceVersion = Number (ActiveVersion s)\<rparr>
         (remote w) = (Inr P, st)
       \<and> d_Get D d ''package.0.filename'' = Some (VString filename)
       \<and> d_Set D d (GetKey h) (flattenPackage P filename) = (Some err, d')"
  then have r: "Package_Read h D d s conn w =
      (Returns None, d',
       log_Printf ''[WARN] Error setting Package for (%s): %s''
         [ArgString (d_Id D d'), ArgError err]
         (snd (invokeR GetPackage_call (GetPackage conn)
             \<lparr>GetPackageInput.ServiceID = d_Id D d,
              GetPackageInput.ServiceVersion = Number (ActiveVersion s)\<rparr>
             (log_Printf ''[DEBUG] Refreshing package for (%s)'' [ArgString (d_Id D d)] w))))"
    by (simp add: Package_Read_def invokeR_def log_Printf_def)
  show "fst (Package_Read h D d s conn w) = Returns None"
    and "fst (snd (Package_Read h D d s conn w)) = d'"
    and "logs (snd (snd (Package_Read h D d s conn w)))
               = logs w @ [(''[DEBUG] Refreshing package for (%s)'', [ArgString (d_Id D d)]),
                           (''[WARN] Error setting Package for (%s): %s'',
                            [ArgString (d_Id D d'), ArgError err])]"
    unfolding r by (simp_all add: invokeR_def log_Printf_def split: prod.splits)
qed

theorem C8_store_failure_logged_witness:
  "fst (ACL_Read (NewServiceACL demoSM) demoD
          (demoData0\<lparr>dd_setError := Some (OtherError ''read-only'')\<rparr>) demoS demoClient
          (world0 [''a''])) = Returns None
   \<and> logs (snd (snd (ACL_Read (NewServiceACL demoSM) demoD
          (demoData0\<lparr>dd_setError := Some (OtherError ''read-only'')\<rparr>) demoS demoClient
          (world0 [''a'']))))
      = [(''[DEBUG] Refreshing ACLs for (%s)'', [ArgString ''svc'']),
         (''[WARN] Error setting ACLs for (%s): %s'',
          [ArgString ''svc'', ArgError (OtherError ''read-only'')])]
   \<and> fst (Package_Read (NewServicePackage demoSM) demoD
          (demoData0\<lparr>dd_package := [pkgBlock ''pkg.tar.gz''],
                     dd_setError := Some (OtherError ''read-only'')\<rparr>) demoS demoClient
          (world0 [])) = Returns None"
proof -
  let ?d = "demoData0\<lparr>dd_setError := Some (OtherError ''read-only'')\<rparr>"
  let ?e = "demoData0\<lparr>dd_package := [pkgBlock ''pkg.tar.gz''],
                     dd_setError := Some (OtherError ''read-only'')\<rparr>"
  let ?acls = "[\<lparr>ACL.ID = [], ACL.Name = ''a''\<rparr>]"
  have 1: "ListACLs demoClient \<lparr>ListACLsInput.ServiceID = d_Id demoD ?d,
                   ListACLsInput.ServiceVersion = Number (ActiveVersion demoS)\<rparr>
             (remote (world0 [''a''])) = (Inr ?acls, [''a''])
    \<and> d_Set demoD ?d (GetKey (NewServiceACL demoSM)) (flattenACLs ?acls)
        = (Some (OtherError ''read-only''), ?d)"
    by (simp add: demoClient_def demoD_def demoData0_def world0_def)
  have 2: "GetPackage demoClient \<lparr>GetPackageInput.ServiceID = d_Id demoD ?e,
                        GetPackageInput.ServiceVersion = Number (ActiveVersion demoS)\<rparr>
         (remote (world0 [])) = (Inr demoPackage, [])
       \<and> d_Get demoD ?e ''package.0.filename'' = Some (VString ''pkg.tar.gz'')
       \<and> d_Set demoD ?e (GetKey (NewServicePackage demoSM))
            (flattenPackage demoPackage ''pkg.tar.gz'')
          = (Some (OtherError ''read-only''), ?e)"
    by (simp add: demoClient_def demoD_def demoData0_def world0_def)
  have i: "d_Id demoD ?d = ''svc''" "logs (world0 [''a'']) = []"
    by (simp_all add: demoD_def demoData0_def world0_def)
  note a = C8_store_failure_logged
    [of demoClient demoD ?d demoS "world0 [''a'']" ?acls "[''a'']" "NewServiceACL demoSM"
        "OtherError ''read-only''" ?d, THEN conjunct1, THEN mp, OF 1]
  note p = C8_store_failure_logged
    [of demoClient demoD ?e demoS "world0 []" _ "[]" "NewServicePackage demoSM"
        "OtherError ''read-only''" ?e _ demoPackage "''pkg.tar.gz''",
     THEN conjunct2, THEN conjunct2, THEN mp, OF 2]
  from a p show ?thesis by (simp add: i)
qed

text \<open>
  Claim C9.  In the package handler's read path the \<open>filename\<close> field of the normalized
  block is the caller's own declared value, read with \<^verbatim>\<open>d.Get("package.0.filename")\<close>;
  of the remote package only the hash sum enters the block, as \<open>source_code_hash\<close>: two
  remote packages with the same hash sum give the same block, whatever else they hold.
\<close>

theorem C9_filename_from_declared_state:
  "(GetPackage conn \<lparr>GetPackageInput.ServiceID = d_Id D d,
                     GetPackageInput.ServiceVersion = Number (ActiveVersion s)\<rparr>
      (remote w) = (Inr P, st)
    \<and> d_Get D d ''package.0.filename'' = Some (VString filename)
    \<longrightarrow> fst (snd (Package_Read h D d s conn w))
         = snd (d_Set D d (GetKey h)
                  [[''source_code_hash'' \<mapsto> VString (HashSum (Metadata P)),
                    ''filename'' \<mapsto> VString filename]]))
   \<and> (HashSum (Metadata P) = HashSum (Metadata P')
      \<longrightarrow> flattenPackage P filename = flattenPackage P' filename)
   \<and> map (\<lambda>b. b ''filename'') (flattenPackage P filename) = [Some (VString filename)]"
proof (intro conjI impI)
  assume "GetPackage conn \<lparr>GetPackageInput.ServiceID = d_Id D d,
                     GetPackageInput.ServiceVersion = Number (ActiveVersion s)\<rparr>
      (remote w) = (Inr P, st)
    \<and> d_Get D d ''package.0.filename'' = Some (VString filename)"
  then show "fst (snd (Package_Read h D d s conn w))
         = snd (d_Set D d (GetKey h)
                  [[''source_code_hash'' \<mapsto> VString (HashSum (Metadata P)),
                    ''filename'' \<mapsto> VString filename]])"
    by (simp add: Package_Read_def invokeR_def log_Printf_def flattenPackage_def
        split: prod.splits option.splits)
next
  assume "HashSum (Metadata P) = HashSum (Metadata P')"
  then show "flattenPackage P filename = flattenPackage P' filename"
    by (simp add: flattenPackage_def)
next
  show "map (\<lambda>b. b ''filename'') (flattenPackage P filename) = [Some (VString filename)]"
    by (simp add: flattenPackage_def)
qed

theorem C9_filename_from_declared_state_witness:
  "dd_stored (fst (snd (Package_Read (NewServicePackage demoSM) demoD
      (demoData0\<lparr>dd_package := [pkgBlock ''pkg.tar.gz'']\<rparr>) demoS demoClient (world0 []))))
     = [(''package'',
         [[''source_code_hash'' \<mapsto> VString ''abc123'',
           ''filename'' \<mapsto> VString ''pkg.tar.gz'']])]
   \<and> flattenPackage demoPackage ''pkg.tar.gz''
     = flattenPackage (demoPackage\<lparr>Package.ID := ''p2'', Package.ServiceVersion := 9\<rparr>)
         ''pkg.tar.gz''"
proof -
  let ?d = "demoData0\<lparr>dd_package := [pkgBlock ''pkg.tar.gz'']\<rparr>"
  have 1: "GetPackage demoClient \<lparr>GetPackageInput.ServiceID = d_Id demoD ?d,
                     GetPackageInput.ServiceVersion = Number (ActiveVersion demoS)\<rparr>
      (remote (world0 [])) = (Inr demoPackage, [])
    \<and> d_Get demoD ?d ''package.0.filename'' = Some (VString ''pkg.tar.gz'')"
    by (simp add: demoClient_def demoD_def demoData0_def world0_def)
  have 2: "HashSum (Metadata demoPackage)
      = HashSum (Metadata (demoPackage\<lparr>Package.ID := ''p2'', Package.ServiceVersion := 9\<rparr>))"
    by simp
  note a = C9_filename_from_declared_state
    [of demoClient demoD ?d demoS "world0 []" demoPackage "[]" "''pkg.tar.gz''"
        "NewServicePackage demoSM", THEN conjunct1, THEN mp, OF 1]
  note b = C9_filename_from_declared_state
    [of _ _ _ _ _ demoPackage _ "''pkg.tar.gz''" _
        "demoPackage\<lparr>Package.ID := ''p2'', Package.ServiceVersion := 9\<rparr>",
     THEN conjunct2, THEN conjunct1, THEN mp, OF 2]
  have "dd_stored (fst (snd (Package_Read (NewServicePackage demoSM) demoD ?d demoS demoClient
      (world0 [])))) = [(''package'',
         [[''source_code_hash'' \<mapsto> VString ''abc123'',
           ''filename'' \<mapsto> VString ''pkg.tar.gz'']])]"
    unfolding a by (simp add: demoD_def demoData0_def demoPackage_def NewServicePackage_def GetKey_def)
  with b show ?thesis by (intro conjI)
qed

text \<open>
  Claim C10.  For every remote package and every file name, the empty string included,
  \<^verbatim>\<open>flattenPackage\<close> returns a list of exactly one mapping, whose keys are \<open>filename\<close> and
  \<open>source_code_hash\<close>, both always present: nothing is pruned, so an empty file name or
  hash is stored as an explicit empty string.  The ACL normalizer, by contrast, drops
  both of its fields when they are empty.
\<close>

theorem C10_flattenPackage_no_pruning:
  "length (flattenPackage P filename) = 1
   \<and> dom (flattenPackage P filename ! 0) = {''filename'', ''source_code_hash''}
   \<and> (flattenPackage P filename ! 0) ''filename'' = Some (VString filename)
   \<and> (flattenPackage P filename ! 0) ''source_code_hash'' = Some (VString (HashSum (Metadata P)))
   \<and> flattenACLs [\<lparr>ACL.ID = [], ACL.Name = []\<rparr>] = [Map.empty]"
proof -
  have "flattenACLs [\<lparr>ACL.ID = [], ACL.Name = []\<rparr>] = [Map.empty]"
    by (auto simp: flattenACLs_map vclMap_def fun_eq_iff)
  moreover have "dom (flattenPackage P filename ! 0) = {''filename'', ''source_code_hash''}"
    by (auto simp: flattenPackage_def)
  ultimately show ?thesis by (simp add: flattenPackage_def)
qed

theorem C10_flattenPackage_no_pruning_witness:
  "(flattenPackage (demoPackage\<lparr>Metadata := (Metadata demoPackage)\<lparr>HashSum := []\<rparr>\<rparr>) [] ! 0)
       ''filename'' = Some (VString [])
   \<and> (flattenPackage (demoPackage\<lparr>Metadata := (Metadata demoPackage)\<lparr>HashSum := []\<rparr>\<rparr>) [] ! 0)
       ''source_code_hash'' = Some (VString [])"
  using C10_flattenPackage_no_pruning
    [of "demoPackage\<lparr>Metadata := (Metadata demoPackage)\<lparr>HashSum := []\<rparr>\<rparr>" "[]"]
  by simp

end
